theory Spec2Isabelle
  imports Complex_Main "HOL-Library.Product_Lexorder"
begin

section \<open>Python primitives used by the agent\<close>

text \<open>
  A Python \<open>str\<close> is modelled as a \<open>string\<close>: a list of characters, one list element per
  code point, so that \<open>len\<close> is \<open>length\<close>. Python integers are \<open>int\<close>. The texts of the
  model are ASCII texts: case conversion acts on the ASCII letters and whitespace is the
  ASCII whitespace; every other character is its own upper and lower case and is not
  whitespace.
\<close>

definition len :: "'a list \<Rightarrow> int" where
  "len xs = int (length xs)"

text \<open>The slices \<open>xs[i:]\<close> and \<open>xs[:i]\<close>: a negative bound counts from the end and every
  bound is clamped to the list.\<close>

definition slice_bound :: "'a list \<Rightarrow> int \<Rightarrow> nat" where
  "slice_bound xs i = (if i < 0 then nat (max 0 (len xs + i)) else nat (min i (len xs)))"

definition slice_from :: "'a list \<Rightarrow> int \<Rightarrow> 'a list" where
  "slice_from xs i = drop (slice_bound xs i) xs"

definition slice_to :: "'a list \<Rightarrow> int \<Rightarrow> 'a list" where
  "slice_to xs i = take (slice_bound xs i) xs"

definition lower_char :: "char \<Rightarrow> char" where
  "lower_char c =
     (case map_of (zip ''ABCDEFGHIJKLMNOPQRSTUVWXYZ'' ''abcdefghijklmnopqrstuvwxyz'') c of
        Some d \<Rightarrow> d | None \<Rightarrow> c)"

definition upper_char :: "char \<Rightarrow> char" where
  "upper_char c =
     (case map_of (zip ''abcdefghijklmnopqrstuvwxyz'' ''ABCDEFGHIJKLMNOPQRSTUVWXYZ'') c of
        Some d \<Rightarrow> d | None \<Rightarrow> c)"

definition lower :: "string \<Rightarrow> string" where
  "lower s = map lower_char s"

definition upper :: "string \<Rightarrow> string" where
  "upper s = map upper_char s"

text \<open>\<open>str.split()\<close> without arguments: split at runs of whitespace (the ASCII characters
  for which \<open>str.isspace\<close> holds), no empty words.\<close>

definition is_space :: "char \<Rightarrow> bool" where
  "is_space c = (c \<in> set [CHR '' '', CHR 0x09, CHR 0x0A, CHR 0x0B, CHR 0x0C, CHR 0x0D,
                            CHR 0x1C, CHR 0x1D, CHR 0x1E, CHR 0x1F])"

fun split_from :: "string \<Rightarrow> string \<Rightarrow> string list" where
  "split_from cur [] = (if cur = [] then [] else [cur])"
| "split_from cur (c # cs) =
     (if is_space c then (if cur = [] then split_from [] cs else cur # split_from [] cs)
      else split_from (cur @ [c]) cs)"

definition split :: "string \<Rightarrow> string list" where
  "split s = split_from [] s"

text \<open>\<open>sep.join(parts)\<close>.\<close>

fun join :: "string \<Rightarrow> string list \<Rightarrow> string" where
  "join sep [] = []"
| "join sep [p] = p"
| "join sep (p # q # ps) = p @ sep @ join sep (q # ps)"

text \<open>\<open>w in s\<close> on strings: \<open>w\<close> occurs in \<open>s\<close> as a contiguous substring.\<close>

fun starts_with :: "string \<Rightarrow> string \<Rightarrow> bool" where
  "starts_with [] s = True"
| "starts_with (c # w) [] = False"
| "starts_with (c # w) (d # s) = (c = d \<and> starts_with w s)"

fun str_in :: "string \<Rightarrow> string \<Rightarrow> bool" where
  "str_in w [] = (w = [])"
| "str_in w (d # s) = (starts_with w (d # s) \<or> str_in w s)"

text \<open>\<open>collections.deque(maxlen=n).append(x)\<close>: the element is added on the right, and when
  the deque has grown beyond \<open>maxlen\<close> the leftmost element is dropped.\<close>

definition deque_append :: "nat \<Rightarrow> 'a list \<Rightarrow> 'a \<Rightarrow> 'a list" where
  "deque_append maxlen d x = (let d' = d @ [x] in if length d' > maxlen then tl d' else d')"

text \<open>
  Exceptions are values: the two transport errors of the model client, and any other
  instance of \<open>Exception\<close> (a \<open>TypeError\<close>, an \<open>OSError\<close>, ...), each with the text that
  \<open>str(e)\<close> gives. A Python call that may raise returns \<open>exn + 'a\<close>, with \<open>Inl\<close> the
  exception.
\<close>

datatype exn = ResponseError string | RequestError string | PyException string

fun str_of :: "exn \<Rightarrow> string" where
  "str_of (ResponseError m) = m"
| "str_of (RequestError m) = m"
| "str_of (PyException m) = m"

section \<open>Utils.py\<close>

text \<open>\<open>truncate\<close> (the name is taken by the record package, hence the suffix).\<close>

definition truncate_str :: "string \<Rightarrow> int \<Rightarrow> string" where
  "truncate_str text max_len =
     (if len text > max_len then slice_to text (max_len - 3) @ ''...'' else text)"

definition estimate_tokens :: "string \<Rightarrow> int" where
  "estimate_tokens text = len text div 4"

section \<open>config.py\<close>

definition CORE_MEMORY_LIMIT :: int where
  "CORE_MEMORY_LIMIT = 2048"

definition RECALL_MEMORY_LIMIT :: nat where
  "RECALL_MEMORY_LIMIT = 100"

definition ARCHIVAL_SEARCH_LIMIT :: int where
  "ARCHIVAL_SEARCH_LIMIT = 50"

definition ATTENTION_WINDOW_TOKENS :: int where
  "ATTENTION_WINDOW_TOKENS = 4096"

definition HEARTBEAT_INTERVAL_SECONDS :: real where
  "HEARTBEAT_INTERVAL_SECONDS = 60"


section \<open>enums\_and\_dataclasses.py\<close>

datatype AgentState =
  INITIALIZING | WAITING_INPUT | HEARTBEAT | ERROR | SHUTDOWN | IDLE | THINKING | EXECUTING

datatype MemoryType = CORE | RECALL | ARCHIVAL

text \<open>The field \<open>id\<close> of the source is \<open>block_id\<close> here. \<open>importance\<close> is a Python float
  that the code only stores and compares; it is a real number here (no NaN).\<close>

record MemoryBlock =
  block_id :: string
  content :: string
  memory_type :: MemoryType
  created_at :: string
  updated_at :: string
  importance :: real
  access_count :: int
  tags :: "string list"

text \<open>\<open>ollama.Message\<close>, as far as the agent uses it: a role and an optional content
  (\<open>msg_content\<close> here, \<open>content\<close> being a field of \<open>MemoryBlock\<close>).\<close>

record Message =
  role :: string
  msg_content :: "string option"

record AttentionContext =
  total_tokens :: int
  core_tokens :: int
  recall_tokens :: int
  system_tokens :: int
  available_tokens :: int
  focus_topic :: "string option"
  priority_memories :: "string list"

text \<open>The field \<open>output\<close> of the source, of type \<open>Any\<close>, is \<open>output_val\<close> here: a text or
  \<open>None\<close>.\<close>

record SkillResult =
  success :: bool
  output_val :: "string option"
  error :: "string option"
  execution_time :: real

section \<open>memory\_system.py\<close>

text \<open>
  The two dictionaries of \<open>MemoryManager\<close> are association lists in insertion order (the
  order in which Python iterates a \<open>dict\<close>); a dictionary has each key once. The recall
  deque is a list, oldest entry first. The store below is the in-memory state; the JSON
  files are not part of it, and a method that writes one takes the outcome of the write as
  a parameter.
\<close>

record MemoryManager =
  agent_id :: string
  core :: "(string \<times> MemoryBlock) list"
  recall :: "Message list"
  archival_index :: "(string \<times> MemoryBlock) list"

definition new_memory :: "string \<Rightarrow> MemoryManager" where
  "new_memory aid = \<lparr>agent_id = aid, core = [], recall = [], archival_index = []\<rparr>"

definition touch :: "MemoryBlock \<Rightarrow> MemoryBlock" where
  "touch b = b\<lparr>access_count := access_count b + 1\<rparr>"

definition get_core_memory :: "MemoryManager \<Rightarrow> string \<times> MemoryManager" where
  "get_core_memory mm =
     (let parts = map (\<lambda>(key, block). ''['' @ upper key @ '']\<newline>'' @ content block) (core mm)
      in (join ''\<newline>\<newline>'' parts,
          mm\<lparr>core := map (\<lambda>(key, block). (key, touch block)) (core mm)\<rparr>))"

text \<open>
  \<open>update_core_memory\<close>. Its parameters from outside the store:
  \<^item> \<open>hash_content\<close> of \<open>Utils.py\<close>, \<open>hashlib.sha256(content.encode()).hexdigest()[:12]\<close>,
    which returns the hash or raises (\<open>encode\<close> raises \<open>UnicodeEncodeError\<close> on a text
    that UTF-8 cannot encode);
  \<^item> \<open>save\<close>, what \<open>self._save_core_memory()\<close> does in this call: \<open>None\<close> when \<open>open\<close> and
    \<open>json.dump\<close> return, \<open>Some e\<close> when they raise \<open>e\<close>. The call is outside any \<open>try\<close>;
  \<^item> the clock readings of \<open>timestamp()\<close>: \<open>t1\<close> is the first reading of the call, \<open>t2\<close>
    the second one, taken only when a new block is built.
\<close>

definition core_chars_except :: "string \<Rightarrow> (string \<times> MemoryBlock) list \<Rightarrow> int" where
  "core_chars_except key d = sum_list (map (\<lambda>(k, b). len (content b)) (filter (\<lambda>(k, b). k \<noteq> key) d))"

text \<open>The assignments \<open>self.core[key].content = content\<close> and
  \<open>self.core[key].updated_at = timestamp()\<close> on the block stored under \<open>key\<close>.\<close>

definition set_content ::
  "string \<Rightarrow> string \<Rightarrow> string \<Rightarrow> (string \<times> MemoryBlock) list \<Rightarrow> (string \<times> MemoryBlock) list" where
  "set_content key cont t1 d =
     map (\<lambda>(k, b). if k = key then (k, b\<lparr>content := cont, updated_at := t1\<rparr>) else (k, b)) d"

text \<open>The \<open>if key in self.core\<close> statement: the block under \<open>key\<close> is overwritten, or a new
  block is built and stored. \<open>hash_content\<close> is called while the new block is built, before
  the dictionary is assigned to: when it raises, the store is as it was.\<close>

definition core_upsert ::
  "(string \<Rightarrow> exn + string) \<Rightarrow> string \<Rightarrow> string \<Rightarrow> MemoryManager \<Rightarrow> string \<Rightarrow> string
     \<Rightarrow> exn + MemoryManager" where
  "core_upsert hash_content t1 t2 mm key cont =
     (if key \<in> set (map fst (core mm)) then
        Inr (mm\<lparr>core := set_content key cont t1 (core mm)\<rparr>)
      else
        (case hash_content cont of
           Inl e \<Rightarrow> Inl e
         | Inr h \<Rightarrow>
             Inr (mm\<lparr>core := core mm @
               [(key, \<lparr>block_id = ''core_'' @ key @ ''_'' @ h, content = cont,
                       memory_type = CORE, created_at = t1, updated_at = t2, importance = 1,
                       access_count = 0, tags = []\<rparr>)]\<rparr>)))"

text \<open>The whole method. The result is the value returned or the exception raised, and the
  store the call leaves behind: an exception of \<open>_save_core_memory\<close> leaves the call after
  the block was stored.\<close>

definition update_core_memory ::
  "(string \<Rightarrow> exn + string) \<Rightarrow> exn option \<Rightarrow> string \<Rightarrow> string \<Rightarrow> MemoryManager \<Rightarrow> string
     \<Rightarrow> string \<Rightarrow> (exn + bool) \<times> MemoryManager" where
  "update_core_memory hash_content save t1 t2 mm key cont =
     (let total_len = core_chars_except key (core mm) in
      if total_len + len cont > CORE_MEMORY_LIMIT then (Inr False, mm)
      else
        (case core_upsert hash_content t1 t2 mm key cont of
           Inl e \<Rightarrow> (Inl e, mm)
         | Inr mm' \<Rightarrow>
             (case save of
                Some e \<Rightarrow> (Inl e, mm')
              | None \<Rightarrow> (Inr True, mm'))))"

definition add_to_recall :: "MemoryManager \<Rightarrow> Message \<Rightarrow> MemoryManager" where
  "add_to_recall mm message =
     mm\<lparr>recall := deque_append RECALL_MEMORY_LIMIT (recall mm) message\<rparr>"

text \<open>\<open>msgs[-limit:] if limit else msgs\<close>: \<open>None\<close> and \<open>0\<close> are both falsy.\<close>

definition get_recall_messages :: "MemoryManager \<Rightarrow> int option \<Rightarrow> Message list" where
  "get_recall_messages mm limit =
     (let msgs = recall mm in
      case limit of
        None \<Rightarrow> msgs
      | Some l \<Rightarrow> if l \<noteq> 0 then slice_from msgs (- l) else msgs)"

definition get_memory_stats :: "MemoryManager \<Rightarrow> (string \<times> int) list" where
  "get_memory_stats mm =
     [(''core_characters'', sum_list (map (\<lambda>(k, b). len (content b)) (core mm))),
      (''core_limit'', CORE_MEMORY_LIMIT),
      (''recall_messages'', len (recall mm)),
      (''recall_limit'', int RECALL_MEMORY_LIMIT),
      (''archival_blocks'', len (archival_index mm))]"

text \<open>The total that the core limit bounds, and the property of a dictionary.\<close>

definition core_chars :: "MemoryManager \<Rightarrow> int" where
  "core_chars mm = sum_list (map (\<lambda>(k, b). len (content b)) (core mm))"

definition dict_ok :: "('k \<times> 'v) list \<Rightarrow> bool" where
  "dict_ok d = distinct (map fst d)"

text \<open>A sequence of \<open>update_core_memory\<close> calls, each with its key, content, clock readings
  and the outcome of its write; the list of stores it passes through, the initial one
  included. A call that raises leaves its store to the next call.\<close>

fun update_trace ::
  "(string \<Rightarrow> exn + string) \<Rightarrow> MemoryManager
     \<Rightarrow> (string \<times> string \<times> string \<times> string \<times> exn option) list \<Rightarrow> MemoryManager list" where
  "update_trace h mm [] = [mm]"
| "update_trace h mm ((key, cont, t1, t2, save) # calls) =
     mm # update_trace h (snd (update_core_memory h save t1 t2 mm key cont)) calls"

text \<open>A sequence of \<open>add_to_recall\<close> calls and the stores it passes through.\<close>

fun recall_trace :: "MemoryManager \<Rightarrow> Message list \<Rightarrow> MemoryManager list" where
  "recall_trace mm [] = [mm]"
| "recall_trace mm (m # ms) = mm # recall_trace (add_to_recall mm m) ms"

text \<open>\<open>search_archival\<close>. The test \<open>tags and not any(t in block.tags for t in tags)\<close>: an
  absent filter and an empty list are both falsy.\<close>

definition tag_excluded :: "string list option \<Rightarrow> MemoryBlock \<Rightarrow> bool" where
  "tag_excluded tg block =
     (case tg of
        None \<Rightarrow> False
      | Some ts \<Rightarrow> ts \<noteq> [] \<and> \<not> list_ex (\<lambda>t. t \<in> set (tags block)) ts)"

text \<open>\<open>sum(1 for w in query_words if w in content_lower)\<close>; the set of query words is a
  duplicate-free list.\<close>

definition block_score :: "string list \<Rightarrow> MemoryBlock \<Rightarrow> int" where
  "block_score query_words block =
     (let content_lower = lower (content block)
      in len (filter (\<lambda>w. str_in w content_lower) query_words))"

text \<open>The loop over \<open>self.archival_index.values()\<close>: the scored hits in iteration order,
  and the index with the access counter of every hit incremented. A hit in \<open>results\<close> is
  the stored block itself, so it carries the incremented counter.\<close>

fun search_scan ::
  "string list \<Rightarrow> string list option \<Rightarrow> (string \<times> MemoryBlock) list
     \<Rightarrow> (int \<times> MemoryBlock) list \<times> (string \<times> MemoryBlock) list" where
  "search_scan query_words tg [] = ([], [])"
| "search_scan query_words tg ((k, block) # rest) =
     (let (results, idx) = search_scan query_words tg rest in
      if tag_excluded tg block then (results, (k, block) # idx)
      else let score = block_score query_words block in
        if score > 0 then ((score, touch block) # results, (k, touch block) # idx)
        else (results, (k, block) # idx))"

text \<open>\<open>results.sort(key=lambda x: (x[0], x[1].importance), reverse=True)\<close>: a stable sort
  on the pair, compared lexicographically; for \<open>reverse=True\<close> the list is reversed, sorted
  and reversed again, which keeps equal keys in their original order.\<close>

definition sort_results :: "(int \<times> MemoryBlock) list \<Rightarrow> (int \<times> MemoryBlock) list" where
  "sort_results results = rev (sort_key (\<lambda>x. (fst x, importance (snd x))) (rev results))"

definition search_archival ::
  "MemoryManager \<Rightarrow> string \<Rightarrow> int \<Rightarrow> string list option
     \<Rightarrow> MemoryBlock list \<times> MemoryManager" where
  "search_archival mm query limit tg =
     (let query_lower = lower query;
          query_words = remdups (split query_lower);
          (results, idx) = search_scan query_words tg (archival_index mm);
          results = sort_results results
      in (map snd (slice_to results limit), mm\<lparr>archival_index := idx\<rparr>))"

section \<open>attention\_mechanism.py\<close>

text \<open>
  \<open>AttentionManager\<close> keeps a reference to the memory store it shares with the rest of the
  agent. Here the store is passed to \<open>build_context\<close> and returned by it, so that what the
  call does to the store is visible in the result.
\<close>

text \<open>The field \<open>context\<close> of the source is \<open>attention_context\<close> here.\<close>

record AttentionManager =
  max_tokens :: int
  attention_context :: AttentionContext

definition new_attention :: "int \<Rightarrow> AttentionManager" where
  "new_attention mt =
     \<lparr>max_tokens = mt,
      attention_context = \<lparr>total_tokens = 0, core_tokens = 0, recall_tokens = 0, system_tokens = 0,
                 available_tokens = mt, focus_topic = None, priority_memories = []\<rparr>\<rparr>"

text \<open>The archival excerpt: one line \<open>- \<dots>\<close> per block, its content cut to 200 characters,
  under the heading.\<close>

definition format_archival :: "MemoryBlock list \<Rightarrow> string" where
  "format_archival archival_results =
     (let archival_parts = map (\<lambda>b. ''- '' @ truncate_str (content b) 200) archival_results
      in ''\<newline>### RELEVANT MEMORIES ###\<newline>'' @ join ''\<newline>'' archival_parts)"

text \<open>\<open>estimate_tokens(msg.content or "")\<close>.\<close>

definition msg_tokens :: "Message \<Rightarrow> int" where
  "msg_tokens msg = estimate_tokens (case msg_content msg of None \<Rightarrow> [] | Some c \<Rightarrow> c)"

definition tokens_of :: "Message list \<Rightarrow> int" where
  "tokens_of msgs = sum_list (map msg_tokens msgs)"

text \<open>The loop over \<open>reversed(recall_messages)\<close>: the entries still to visit (newest
  first), the list \<open>recall_to_add\<close> built by \<open>insert(0, msg)\<close>, and the running
  \<open>recall_tokens\<close> (\<open>recall_toks\<close> here, the name being a field of \<open>AttentionContext\<close>);
  \<open>break\<close> at the first entry that does not fit.\<close>

fun recall_fill :: "int \<Rightarrow> Message list \<Rightarrow> Message list \<Rightarrow> int \<Rightarrow> Message list \<times> int" where
  "recall_fill remaining [] recall_to_add recall_toks = (recall_to_add, recall_toks)"
| "recall_fill remaining (msg # rest) recall_to_add recall_toks =
     (if recall_toks + msg_tokens msg > remaining then (recall_to_add, recall_toks)
      else recall_fill remaining rest (msg # recall_to_add) (recall_toks + msg_tokens msg))"

text \<open>The block under \<open>if focus_query:\<close> (\<open>None\<close> and the empty string are falsy): the
  content of the system message, \<open>used_tokens\<close>, \<open>remaining\<close> and the store after it.\<close>

definition focus_stage ::
  "MemoryManager \<Rightarrow> string \<Rightarrow> int \<Rightarrow> int \<Rightarrow> string option
     \<Rightarrow> string \<times> int \<times> int \<times> MemoryManager" where
  "focus_stage mm full_system used_tokens remaining focus_query =
     (case focus_query of
        None \<Rightarrow> (full_system, used_tokens, remaining, mm)
      | Some q \<Rightarrow>
          if q = [] then (full_system, used_tokens, remaining, mm)
          else
            let (archival_results, mm') = search_archival mm q 5 None in
            if archival_results = [] then (full_system, used_tokens, remaining, mm')
            else
              let archival_content = format_archival archival_results;
                  archival_tokens = estimate_tokens archival_content
              in if archival_tokens < remaining div 3
                 then (full_system @ ''\<newline>'' @ archival_content,
                       used_tokens + archival_tokens, remaining - archival_tokens, mm')
                 else (full_system, used_tokens, remaining, mm'))"

definition build_context ::
  "AttentionManager \<Rightarrow> MemoryManager \<Rightarrow> string \<Rightarrow> string option
     \<Rightarrow> (Message list \<times> AttentionContext) \<times> AttentionManager \<times> MemoryManager" where
  "build_context am mm system_prompt focus_query =
     (let system_toks = estimate_tokens system_prompt;
          (core_content, mm) = get_core_memory mm;
          core_toks = estimate_tokens core_content;
          full_system = system_prompt @ ''\<newline>\<newline>### CORE MEMORY ###\<newline>'' @ core_content;
          used_tokens = system_toks + core_toks;
          remaining = max_tokens am - used_tokens - 500;
          (system_content, used_tokens, remaining, mm) =
             focus_stage mm full_system used_tokens remaining focus_query;
          recall_messages = get_recall_messages mm None;
          (recall_to_add, recall_toks) = recall_fill remaining (rev recall_messages) [] 0;
          messages = \<lparr>role = ''system'', msg_content = Some system_content\<rparr> # recall_to_add;
          used_tokens = used_tokens + recall_toks;
          ctx = \<lparr>total_tokens = used_tokens, core_tokens = core_toks,
                 recall_tokens = recall_toks, system_tokens = system_toks,
                 available_tokens = max_tokens am - used_tokens, focus_topic = focus_query,
                 priority_memories = []\<rparr>
      in ((messages, ctx), am\<lparr>attention_context := ctx\<rparr>, mm))"

section \<open>skill\_registry.py\<close>

text \<open>
  A skill is its name and its handler \<open>execute(**kwargs)\<close> (\<open>skill_name\<close> and
  \<open>skill_execute\<close> here); its description, category and parameter schema are not read by
  the functions below. A handler has side effects on the objects it was built with; \<open>'w\<close>
  is the state of these objects. It returns its result or raises, and in both cases leaves
  a state behind. The keyword arguments are pairs of a name and a value.
\<close>

type_synonym kwargs = "(string \<times> string) list"

record 'w Skill =
  skill_name :: string
  skill_execute :: "kwargs \<Rightarrow> 'w \<Rightarrow> (exn + SkillResult) \<times> 'w"

type_synonym 'w SkillRegistry = "(string \<times> 'w Skill) list"

definition register :: "'w SkillRegistry \<Rightarrow> 'w Skill \<Rightarrow> 'w SkillRegistry" where
  "register reg skill =
     (if skill_name skill \<in> set (map fst reg)
      then map (\<lambda>(n, s). if n = skill_name skill then (n, skill) else (n, s)) reg
      else reg @ [(skill_name skill, skill)])"

text \<open>\<open>SkillRegistry.get\<close>.\<close>

definition get_skill :: "'w SkillRegistry \<Rightarrow> string \<Rightarrow> 'w Skill option" where
  "get_skill reg name = map_of reg name"

text \<open>
  The signature is \<open>execute(self, name: str, **kwargs)\<close>, and the protocol calls it as
  \<open>self.skills.execute(func_name, **func_args)\<close>. The call binds \<open>self\<close> and \<open>name\<close> by
  position and then the keyword arguments, in the order of the dictionary: a keyword
  \<open>self\<close> or \<open>name\<close> meets a parameter that is bound already, and the call raises
  \<open>TypeError\<close> before the body runs.
\<close>

definition keyword_clash :: "kwargs \<Rightarrow> exn option" where
  "keyword_clash args =
     (case find (\<lambda>(k, v). k = ''self'' \<or> k = ''name'') args of
        None \<Rightarrow> None
      | Some (k, v) \<Rightarrow>
          Some (PyException (''SkillRegistry.execute() got multiple values for argument ''
                             @ [CHR 0x27] @ k @ [CHR 0x27])))"

text \<open>\<open>SkillRegistry.execute\<close>; \<open>start\<close> and \<open>finish\<close> are the two readings of
  \<open>time.time()\<close>. The exception of the call itself comes first; in the body, the \<open>try\<close>
  block is the handler call, the \<open>except Exception\<close> clause the \<open>Inl\<close> branch of the
  handler.\<close>

definition execute ::
  "'w SkillRegistry \<Rightarrow> string \<Rightarrow> kwargs \<Rightarrow> real \<Rightarrow> real \<Rightarrow> 'w \<Rightarrow> (exn + SkillResult) \<times> 'w" where
  "execute reg name args start finish w =
     (case keyword_clash args of
        Some e \<Rightarrow> (Inl e, w)
      | None \<Rightarrow>
          (case get_skill reg name of
             None \<Rightarrow>
               (Inr \<lparr>success = False, output_val = None,
                     error = Some (''Skill '' @ [CHR 0x27] @ name @ [CHR 0x27] @ '' not found''),
                     execution_time = 0\<rparr>, w)
           | Some skill \<Rightarrow>
               (case skill_execute skill args w of
                  (Inr result, w') \<Rightarrow> (Inr (result\<lparr>execution_time := finish - start\<rparr>), w')
                | (Inl e, w') \<Rightarrow>
                    (Inr \<lparr>success = False, output_val = None, error = Some (str_of e),
                          execution_time = finish - start\<rparr>, w'))))"

section \<open>heartbeat\_protocol.py\<close>

text \<open>The response of the model backend, as far as the protocol reads it:
  \<open>response.message\<close>, its \<open>content\<close> and \<open>tool_calls\<close>, and of a tool call
  \<open>function.name\<close> and \<open>function.arguments\<close>. The fields \<open>timestamp\<close>, \<open>state\<close> and
  \<open>notes\<close> of \<open>HeartbeatEvent\<close> carry the prefix \<open>event_\<close>.\<close>

record ToolCall =
  function_name :: string
  function_arguments :: "kwargs option"

record ResponseMessage =
  response_content :: "string option"
  tool_calls :: "ToolCall list option"

record ChatResponse =
  response_message :: "ResponseMessage option"

record HeartbeatEvent =
  beat_id :: int
  event_timestamp :: string
  event_state :: AgentState
  memory_usage :: "(string \<times> int) list"
  pending_tasks :: int
  event_notes :: string

text \<open>
  The state of a \<open>HeartbeatProtocol\<close>. The two events are their flags, the two queues are
  lists with the oldest element first, the history is a deque of at most 100 events. The
  attention manager and the skills work on the same memory store; it is stored once, in
  \<open>memory\<close>. The thread handle is \<open>None\<close> before \<open>start()\<close>.
\<close>

record HeartbeatProtocol =
  is_local :: bool
  memory :: MemoryManager
  attention :: AttentionManager
  interval :: real
  beat_count :: int
  missed_beats :: int
  state :: AgentState
  last_heartbeat :: "string option"
  heartbeat_history :: "HeartbeatEvent list"
  stop_event :: bool
  heartbeat_requested :: bool
  user_input_queue :: "string list"
  output_queue :: "(string \<times> string) list"
  heartbeat_thread :: "string option"

text \<open>What the built-in skills hold: the memory store, the output queue and the wake
  event of the protocol.\<close>

record SkillWorld =
  w_memory :: MemoryManager
  w_output_queue :: "(string \<times> string) list"
  w_heartbeat_requested :: bool

definition world_of :: "HeartbeatProtocol \<Rightarrow> SkillWorld" where
  "world_of p = \<lparr>w_memory = memory p, w_output_queue = output_queue p,
                 w_heartbeat_requested = heartbeat_requested p\<rparr>"

definition with_world :: "SkillWorld \<Rightarrow> HeartbeatProtocol \<Rightarrow> HeartbeatProtocol" where
  "with_world w p = p\<lparr>memory := w_memory w, output_queue := w_output_queue w,
                       heartbeat_requested := w_heartbeat_requested w\<rparr>"

text \<open>
  What one cycle reads from outside the protocol object: the clock (\<open>env_now\<close> for
  \<open>timestamp()\<close> and \<open>datetime.now()\<close>, \<open>env_start\<close> and \<open>env_finish\<close> for \<open>time.time()\<close>),
  the outcome of \<open>_build_status_block()\<close>, which calls into the thought generator, the two
  prompt templates (their wording is not modelled), and the backend behind
  \<open>_call_llm_chat\<close>, which returns a response or raises.
\<close>

record CycleEnv =
  env_now :: string
  env_start :: real
  env_finish :: real
  env_status_block :: "exn + string"
  env_local_prompt :: "string \<Rightarrow> string \<Rightarrow> string"
  env_heartbeat_prompt :: "string \<Rightarrow> int \<Rightarrow> string"
  env_llm :: "Message list \<Rightarrow> exn + ChatResponse"

definition send_user_input :: "HeartbeatProtocol \<Rightarrow> string \<Rightarrow> HeartbeatProtocol" where
  "send_user_input p message =
     p\<lparr>user_input_queue := user_input_queue p @ [message], heartbeat_requested := True\<rparr>"

text \<open>The loop over \<open>response.message.tool_calls\<close>. The tool message that the source
  appends to the local list \<open>messages\<close> is not read again and is left out.\<close>

fun run_tool_calls ::
  "SkillWorld SkillRegistry \<Rightarrow> CycleEnv \<Rightarrow> ToolCall list \<Rightarrow> HeartbeatProtocol
     \<Rightarrow> exn option \<times> HeartbeatProtocol" where
  "run_tool_calls reg env [] p = (None, p)"
| "run_tool_calls reg env (tc # tcs) p =
     (let func_name = function_name tc;
          func_args = (case function_arguments tc of None \<Rightarrow> [] | Some a \<Rightarrow> a)
      in case execute reg func_name func_args (env_start env) (env_finish env) (world_of p) of
           (Inl e, w) \<Rightarrow> (Some e, with_world w p)
         | (Inr result, w) \<Rightarrow> run_tool_calls reg env tcs (with_world w p))"

text \<open>\<open>_process_response\<close>. The result is the exception that leaves the call, if any, and
  the state at that point.\<close>

definition process_response ::
  "SkillWorld SkillRegistry \<Rightarrow> CycleEnv \<Rightarrow> ChatResponse \<Rightarrow> HeartbeatProtocol
     \<Rightarrow> exn option \<times> HeartbeatProtocol" where
  "process_response reg env response p =
     (case response_message response of
        None \<Rightarrow> (None, p)
      | Some msg \<Rightarrow>
          let text = (case response_content msg of None \<Rightarrow> [] | Some c \<Rightarrow> c);
              calls = (case tool_calls msg of None \<Rightarrow> [] | Some tcs \<Rightarrow> tcs);
              p = p\<lparr>memory := add_to_recall (memory p)
                                  \<lparr>role = ''assistant'', msg_content = Some text\<rparr>\<rparr>;
              (raised, p) = (if calls \<noteq> [] then run_tool_calls reg env calls (p\<lparr>state := EXECUTING\<rparr>)
                             else (None, p))
          in case raised of
               Some e \<Rightarrow> (Some e, p)
             | None \<Rightarrow>
                 if text \<noteq> [] \<and> calls = []
                 then (None, p\<lparr>output_queue := output_queue p @ [(''message'', text)]\<rparr>)
                 else (None, p))"

text \<open>The part of \<open>_execute_heartbeat\<close> from \<open>self.state = AgentState.THINKING\<close> on: the
  backend call and the response inside \<open>try\<close>, both \<open>except\<close> clauses, which do the same,
  and the event, the state and the counter after them.\<close>

definition think_and_record ::
  "SkillWorld SkillRegistry \<Rightarrow> CycleEnv \<Rightarrow> bool \<Rightarrow> string list \<Rightarrow> Message list
     \<Rightarrow> HeartbeatProtocol \<Rightarrow> HeartbeatProtocol" where
  "think_and_record reg env triggered_by_event user_messages messages p =
     (let p = p\<lparr>state := THINKING\<rparr>;
          p = (case env_llm env messages of
                 Inl e \<Rightarrow> p\<lparr>output_queue := output_queue p @ [(''error'', str_of e)]\<rparr>
               | Inr response \<Rightarrow>
                   (case process_response reg env response p of
                      (Some e, p') \<Rightarrow> p'\<lparr>output_queue := output_queue p' @ [(''error'', str_of e)]\<rparr>
                    | (None, p') \<Rightarrow> p'));
          event = \<lparr>beat_id = beat_count p, event_timestamp = env_now env, event_state = state p,
                   memory_usage = get_memory_stats (memory p), pending_tasks = len user_messages,
                   event_notes = ''triggered='' @ (if triggered_by_event then ''True'' else ''False'')\<rparr>
      in p\<lparr>heartbeat_history := deque_append 100 (heartbeat_history p) event,
           state := IDLE, missed_beats := 0\<rparr>)"

text \<open>\<open>_execute_heartbeat\<close> up to the line \<open>self.state = AgentState.THINKING\<close>: the counter,
  the queue, the recall entries, the system prompt, the context and the last message. The
  result is how this part ends (an exception leaves the call: \<open>Inl\<close>; the \<open>return\<close> of the
  idle cycle of a local model: \<open>Inr None\<close>; the messages for the backend: \<open>Inr (Some \<dots>)\<close>),
  the list \<open>user_messages\<close> and the state.\<close>

definition prepare_cycle ::
  "CycleEnv \<Rightarrow> HeartbeatProtocol
     \<Rightarrow> (exn + Message list option) \<times> string list \<times> HeartbeatProtocol" where
  "prepare_cycle env p =
     (let p = p\<lparr>beat_count := beat_count p + 1, state := HEARTBEAT,
                 last_heartbeat := Some (env_now env)\<rparr>;
          user_messages = user_input_queue p;
          p = p\<lparr>user_input_queue := []\<rparr>;
          p = p\<lparr>memory := foldl add_to_recall (memory p)
                    (map (\<lambda>msg. \<lparr>role = ''user'', msg_content = Some msg\<rparr>) user_messages)\<rparr>
      in case (if is_local p
               then (case env_status_block env of
                       Inl e \<Rightarrow> Inl e
                     | Inr status_block \<Rightarrow> Inr (env_local_prompt env (env_now env) status_block))
               else Inr (env_heartbeat_prompt env (env_now env) (beat_count p))) of
           Inl e \<Rightarrow> (Inl e, user_messages, p)
         | Inr system_prompt \<Rightarrow>
             let focus = (if user_messages \<noteq> [] then Some (last user_messages) else None);
                 ((messages, ctx), am, mm) = build_context (attention p) (memory p) system_prompt focus;
                 p = p\<lparr>attention := am, memory := mm\<rparr>
             in if user_messages \<noteq> [] then
                  (if is_local p then
                     (case env_status_block env of
                        Inl e \<Rightarrow> (Inl e, user_messages, p)
                      | Inr status_block \<Rightarrow>
                          let augmented = ''[Your internal status for reference]\<newline>'' @ status_block
                                @ ''\<newline>\<newline>User message: '' @ last user_messages
                          in (Inr (Some (messages @ [\<lparr>role = ''user'', msg_content = Some augmented\<rparr>])),
                              user_messages, p))
                   else
                     let hint = ''\<newline>\<newline>[PENDING USER INPUT]\<newline>''
                           @ join ''\<newline>'' (map (\<lambda>m. ''User: '' @ m) user_messages)
                     in (Inr (Some (messages @ [\<lparr>role = ''user'',
                              msg_content = Some (''Process these messages and respond.'' @ hint)\<rparr>])),
                         user_messages, p))
                else if is_local p then (Inr None, user_messages, p)
                else (Inr (Some (messages @ [\<lparr>role = ''user'',
                           msg_content = Some ''Heartbeat tick. Reflect and act if needed.''\<rparr>])),
                      user_messages, p))"

text \<open>\<open>_execute_heartbeat\<close>. The result is the exception that leaves the call, if any, and
  the state at that point.\<close>

definition execute_heartbeat ::
  "SkillWorld SkillRegistry \<Rightarrow> CycleEnv \<Rightarrow> bool \<Rightarrow> HeartbeatProtocol
     \<Rightarrow> exn option \<times> HeartbeatProtocol" where
  "execute_heartbeat reg env triggered_by_event p =
     (case prepare_cycle env p of
        (Inl e, user_messages, p') \<Rightarrow> (Some e, p')
      | (Inr None, user_messages, p') \<Rightarrow> (None, p')
      | (Inr (Some messages), user_messages, p') \<Rightarrow>
          (None, think_and_record reg env triggered_by_event user_messages messages p'))"




text \<open>
  \<open>stop()\<close>: the stop flag, the join with its timeout of 5 seconds, the state. The time
  after which the worker thread ends is a parameter (\<open>None\<close>: it does not end);
  \<open>Thread.join(timeout)\<close> returns when the thread has ended or the timeout has passed. The
  result is the new state and the time the call has blocked.
\<close>

definition join_time :: "real option \<Rightarrow> real \<Rightarrow> real" where
  "join_time worker_ends timeout =
     (case worker_ends of None \<Rightarrow> timeout | Some d \<Rightarrow> min d timeout)"

definition stop :: "real option \<Rightarrow> HeartbeatProtocol \<Rightarrow> HeartbeatProtocol \<times> real" where
  "stop worker_ends p =
     (let p = p\<lparr>stop_event := True\<rparr>;
          blocked = (case heartbeat_thread p of None \<Rightarrow> 0 | Some t \<Rightarrow> join_time worker_ends 5)
      in (p\<lparr>state := SHUTDOWN\<rparr>, blocked))"

text \<open>
  \<open>Event.wait(timeout)\<close> as the worker calls it: the flag at the call, the timeout, and
  the time after which another thread sets the flag (\<open>None\<close>: no thread does). The result
  is the value returned and the time the call has blocked.
\<close>

definition event_wait :: "bool \<Rightarrow> real \<Rightarrow> real option \<Rightarrow> bool \<times> real" where
  "event_wait flag timeout set_after =
     (if flag then (True, 0)
      else case set_after of
             None \<Rightarrow> (False, timeout)
           | Some d \<Rightarrow> if d < timeout then (True, d) else (False, timeout))"

text \<open>Values used in the worked examples below.\<close>

definition block_of :: "string \<Rightarrow> string \<Rightarrow> MemoryType \<Rightarrow> real \<Rightarrow> MemoryBlock" where
  "block_of i c ty imp =
     \<lparr>block_id = i, content = c, memory_type = ty, created_at = ''t0'', updated_at = ''t0'',
      importance = imp, access_count = 0, tags = []\<rparr>"

definition persona_store :: MemoryManager where
  "persona_store =
     \<lparr>agent_id = ''a'',
      core = [(''persona'', block_of ''core_persona_h'' (replicate 2000 (CHR ''x'')) CORE 1)],
      recall = [], archival_index = []\<rparr>"

text \<open>An archival corpus with zero, one and two words of the query \<open>foo bar\<close>.\<close>

definition foo_bar_store :: MemoryManager where
  "foo_bar_store =
     \<lparr>agent_id = ''a'', core = [], recall = [],
      archival_index =
        [(''arch_0'', block_of ''arch_0'' ''nothing here'' ARCHIVAL (9 / 10)),
         (''arch_1'', (block_of ''arch_1'' ''a Foo fighter'' ARCHIVAL (1 / 2))\<lparr>tags := [''music'']\<rparr>),
         (''arch_2'', (block_of ''arch_2'' ''Bar and foo'' ARCHIVAL (1 / 10))
                        \<lparr>tags := [''pub'', ''music'']\<rparr>),
         (''arch_3'', (block_of ''arch_3'' ''the BAR'' ARCHIVAL (7 / 10))\<lparr>tags := [''pub'']\<rparr>)]\<rparr>"

text \<open>An empty core, one archival block and a budget of 525 tokens: 25 tokens are left
  after the safety margin. A recall buffer of three entries of 5, 10 and 9 tokens.\<close>

definition foo_store :: MemoryManager where
  "foo_store =
     \<lparr>agent_id = ''a'', core = [],
      recall = [\<lparr>role = ''user'', msg_content = Some (replicate 20 (CHR ''a''))\<rparr>,
                \<lparr>role = ''assistant'', msg_content = Some (replicate 40 (CHR ''b''))\<rparr>,
                \<lparr>role = ''user'', msg_content = Some (replicate 36 (CHR ''c''))\<rparr>],
      archival_index = [(''arch_0'', block_of ''arch_0'' ''foo'' ARCHIVAL (1 / 2))]\<rparr>"

text \<open>A small store with one core block, for the effect of reading it.\<close>

definition nexuss_store :: MemoryManager where
  "nexuss_store =
     \<lparr>agent_id = ''a'',
      core = [(''persona'', block_of ''core_persona_h'' ''I am Nexuss.'' CORE 1)],
      recall = [\<lparr>role = ''user'', msg_content = Some ''hello''\<rparr>],
      archival_index = [(''arch_0'', block_of ''arch_0'' ''foo'' ARCHIVAL (1 / 2)),
                        (''arch_1'', block_of ''arch_1'' ''baz'' ARCHIVAL (1 / 2))]\<rparr>"

text \<open>A registry with the built-in \<open>send_message\<close> skill and a skill whose handler raises;
  a protocol object around the small store, for a remote and for a local backend.\<close>

definition send_message_skill :: "SkillWorld Skill" where
  "send_message_skill =
     \<lparr>skill_name = ''send_message'',
      skill_execute = (\<lambda>args w.
        case map_of args ''message'' of
          None \<Rightarrow> (Inl (PyException ''missing argument: message''), w)
        | Some m \<Rightarrow>
            (Inr \<lparr>success = True, output_val = Some ''Sent.'', error = None, execution_time = 0\<rparr>,
             w\<lparr>w_output_queue := w_output_queue w @ [(''message'', m)]\<rparr>))\<rparr>"

definition boom_skill :: "SkillWorld Skill" where
  "boom_skill =
     \<lparr>skill_name = ''boom'',
      skill_execute = (\<lambda>args w. (Inl (PyException ''disk full''), w))\<rparr>"

definition example_registry :: "SkillWorld SkillRegistry" where
  "example_registry = register (register [] send_message_skill) boom_skill"

definition example_world :: SkillWorld where
  "example_world = \<lparr>w_memory = nexuss_store, w_output_queue = [], w_heartbeat_requested = False\<rparr>"

definition example_protocol :: "bool \<Rightarrow> HeartbeatProtocol" where
  "example_protocol local =
     \<lparr>is_local = local, memory = nexuss_store, attention = new_attention 4096, interval = 60,
      beat_count = 0, missed_beats = 1, state = IDLE, last_heartbeat = None,
      heartbeat_history = [], stop_event = False, heartbeat_requested = False,
      user_input_queue = [], output_queue = [], heartbeat_thread = Some ''HeartbeatThread''\<rparr>"

definition failing_env :: CycleEnv where
  "failing_env =
     \<lparr>env_now = ''t1'', env_start = 0, env_finish = 1, env_status_block = Inr ''status'',
      env_local_prompt = (\<lambda>t s. ''local''), env_heartbeat_prompt = (\<lambda>t n. ''remote''),
      env_llm = (\<lambda>msgs. Inl (RequestError ''connection refused''))\<rparr>"


section \<open>Properties of the recall buffer\<close>

lemma deque_append_length:
  "length d \<le> n \<Longrightarrow> length (deque_append n d x) \<le> n"
  by (auto simp: deque_append_def Let_def)

lemma deque_append_eq_drop:
  "deque_append n d x = (if length d < n then d @ [x] else tl (d @ [x]))"
  by (auto simp: deque_append_def Let_def)

lemma deque_append_suffix:
  "length d \<le> n \<Longrightarrow> deque_append n d x = drop (length (d @ [x]) - n) (d @ [x])"
  by (cases d) (auto simp: deque_append_def Let_def drop_Cons' )

lemma recall_trace_bounded:
  "length (recall mm) \<le> RECALL_MEMORY_LIMIT \<Longrightarrow> s \<in> set (recall_trace mm ms)
     \<Longrightarrow> length (recall s) \<le> RECALL_MEMORY_LIMIT"
proof (induction ms arbitrary: mm)
  case Nil
  then show ?case by simp
next
  case (Cons m ms)
  have "length (recall (add_to_recall mm m)) \<le> RECALL_MEMORY_LIMIT"
    using Cons.prems(1) by (simp add: add_to_recall_def deque_append_length)
  with Cons show ?case by auto
qed

lemma drop_suffix_again:
  "drop (length (drop (length xs - n) xs @ ys) - n) (drop (length xs - n) xs @ ys) =
   drop (length (xs @ ys) - n) (xs @ ys)"
proof -
  define j where "j = length xs - n"
  define k where "k = length (drop j xs @ ys) - n"
  define zs where "zs = xs @ ys"
  have a: "drop j xs @ ys = drop j zs" by (simp add: j_def zs_def)
  have "k + j = length zs - n" by (simp add: k_def j_def zs_def)
  then have "drop k (drop j zs) = drop (length zs - n) zs" by (simp only: drop_drop)
  then have "drop k (drop j xs @ ys) = drop (length zs - n) zs" by (simp only: a)
  then show ?thesis unfolding k_def j_def zs_def .
qed

lemma recall_trace_last:
  "length (recall mm) \<le> RECALL_MEMORY_LIMIT \<Longrightarrow>
   recall (last (recall_trace mm ms)) =
     drop (length (recall mm @ ms) - RECALL_MEMORY_LIMIT) (recall mm @ ms)"
proof (induction ms arbitrary: mm)
  case Nil
  then show ?case by simp
next
  case (Cons m ms)
  let ?mm' = "add_to_recall mm m"
  let ?n = RECALL_MEMORY_LIMIT
  have b: "length (recall ?mm') \<le> ?n"
    using Cons.prems by (simp add: add_to_recall_def deque_append_length)
  have r: "recall ?mm' = drop (length (recall mm @ [m]) - ?n) (recall mm @ [m])"
    using Cons.prems by (simp add: add_to_recall_def deque_append_suffix)
  have "recall (last (recall_trace mm (m # ms))) = recall (last (recall_trace ?mm' ms))"
    by (cases ms) simp_all
  also have "\<dots> = drop (length (recall ?mm' @ ms) - ?n) (recall ?mm' @ ms)"
    using Cons.IH [OF b] .
  also have "\<dots> = drop (length ((recall mm @ [m]) @ ms) - ?n) ((recall mm @ [m]) @ ms)"
    unfolding r by (rule drop_suffix_again)
  finally show ?case by simp
qed

text \<open>
  Claim C2. For every sequence of \<open>add_to_recall\<close> calls on a recall buffer within its
  capacity, every store the sequence passes through holds at most \<open>RECALL_MEMORY_LIMIT\<close>
  entries; every append succeeds and puts the new entry last; an append below capacity
  keeps all entries, an append on a full buffer drops exactly the oldest entry and keeps the
  others in order; after the whole sequence the buffer is the most recent
  \<open>RECALL_MEMORY_LIMIT\<close> entries, oldest first.
\<close>

theorem add_to_recall_fifo:
  assumes "length (recall mm) \<le> RECALL_MEMORY_LIMIT"
  shows "(\<forall>s \<in> set (recall_trace mm ms). length (recall s) \<le> RECALL_MEMORY_LIMIT)
     \<and> last (recall (add_to_recall mm m)) = m
     \<and> (length (recall mm) < RECALL_MEMORY_LIMIT \<longrightarrow>
          recall (add_to_recall mm m) = recall mm @ [m])
     \<and> (length (recall mm) = RECALL_MEMORY_LIMIT \<longrightarrow>
          recall (add_to_recall mm m) = tl (recall mm) @ [m])
     \<and> recall (last (recall_trace mm ms)) =
          drop (length (recall mm @ ms) - RECALL_MEMORY_LIMIT) (recall mm @ ms)"
proof (intro conjI)
  show "\<forall>s \<in> set (recall_trace mm ms). length (recall s) \<le> RECALL_MEMORY_LIMIT"
    using assms recall_trace_bounded by blast
  show "last (recall (add_to_recall mm m)) = m"
    by (cases "recall mm")
       (auto simp: add_to_recall_def deque_append_def Let_def RECALL_MEMORY_LIMIT_def)
  show "length (recall mm) < RECALL_MEMORY_LIMIT \<longrightarrow>
          recall (add_to_recall mm m) = recall mm @ [m]"
    by (simp add: add_to_recall_def deque_append_eq_drop)
  show "length (recall mm) = RECALL_MEMORY_LIMIT \<longrightarrow>
          recall (add_to_recall mm m) = tl (recall mm) @ [m]"
    by (cases "recall mm")
       (auto simp: add_to_recall_def deque_append_eq_drop RECALL_MEMORY_LIMIT_def)
  show "recall (last (recall_trace mm ms)) =
          drop (length (recall mm @ ms) - RECALL_MEMORY_LIMIT) (recall mm @ ms)"
    using assms by (rule recall_trace_last)
qed


text \<open>The full buffer of 100 entries: the append evicts the first entry only.\<close>

theorem add_to_recall_fifo_witness:
  "length (recall \<lparr>agent_id = ''a'', core = [],
                   recall = replicate 100 \<lparr>role = ''user'', msg_content = Some ''old''\<rparr>,
                   archival_index = []\<rparr>) = RECALL_MEMORY_LIMIT
   \<and> recall (add_to_recall
         \<lparr>agent_id = ''a'', core = [],
          recall = replicate 100 \<lparr>role = ''user'', msg_content = Some ''old''\<rparr>,
          archival_index = []\<rparr>
         \<lparr>role = ''user'', msg_content = Some ''new''\<rparr>)
       = replicate 99 \<lparr>role = ''user'', msg_content = Some ''old''\<rparr>
           @ [\<lparr>role = ''user'', msg_content = Some ''new''\<rparr>]"
  using add_to_recall_fifo [of
      "\<lparr>agent_id = ''a'', core = [],
        recall = replicate 100 \<lparr>role = ''user'', msg_content = Some ''old''\<rparr>,
        archival_index = []\<rparr>" "[]" "\<lparr>role = ''user'', msg_content = Some ''new''\<rparr>"]
  by (simp add: RECALL_MEMORY_LIMIT_def)

lemma slice_from_neg:
  "0 < n \<Longrightarrow> slice_from xs (- n) = drop (length xs - nat n) xs"
  by (auto simp: slice_from_def slice_bound_def len_def max_def nat_diff_distrib' intro: arg_cong2 [where f = drop])

text \<open>
  Claim C10. \<open>get_recall_messages\<close> with \<open>limit = 0\<close> returns the entire buffer, since the
  zero is falsy; with a strictly positive limit \<open>n\<close> it returns the last
  \<open>min n (length buffer)\<close> entries of the buffer, in the buffer's (chronological) order.
\<close>

theorem get_recall_messages_limit:
  "get_recall_messages mm (Some 0) = recall mm
   \<and> (0 < n \<longrightarrow>
        get_recall_messages mm (Some n) =
          drop (length (recall mm) - min (nat n) (length (recall mm))) (recall mm)
        \<and> length (get_recall_messages mm (Some n)) = min (nat n) (length (recall mm)))"
proof (intro conjI impI)
  show "get_recall_messages mm (Some 0) = recall mm"
    by (simp add: get_recall_messages_def Let_def)
next
  assume n: "0 < n"
  then have g: "get_recall_messages mm (Some n) = drop (length (recall mm) - nat n) (recall mm)"
    by (simp add: get_recall_messages_def slice_from_neg Let_def)
  show "get_recall_messages mm (Some n) =
          drop (length (recall mm) - min (nat n) (length (recall mm))) (recall mm)"
    unfolding g by (simp add: min_def)
  show "length (get_recall_messages mm (Some n)) = min (nat n) (length (recall mm))"
    unfolding g by simp
qed

text \<open>Three entries and limit 2: the two most recent ones, oldest first.\<close>

theorem get_recall_messages_limit_witness:
  "get_recall_messages
     \<lparr>agent_id = ''a'', core = [],
      recall = [\<lparr>role = ''user'', msg_content = Some ''one''\<rparr>,
                \<lparr>role = ''assistant'', msg_content = Some ''two''\<rparr>,
                \<lparr>role = ''user'', msg_content = Some ''three''\<rparr>],
      archival_index = []\<rparr> (Some 2)
   = [\<lparr>role = ''assistant'', msg_content = Some ''two''\<rparr>,
      \<lparr>role = ''user'', msg_content = Some ''three''\<rparr>]
   \<and> (0::int) < 2"
  using get_recall_messages_limit [of
     "\<lparr>agent_id = ''a'', core = [],
      recall = [\<lparr>role = ''user'', msg_content = Some ''one''\<rparr>,
                \<lparr>role = ''assistant'', msg_content = Some ''two''\<rparr>,
                \<lparr>role = ''user'', msg_content = Some ''three''\<rparr>],
      archival_index = []\<rparr>" 2]
  by simp

section \<open>Properties of the core memory\<close>

text \<open>The store of a new agent, with nothing loaded, is within both limits.\<close>

lemma new_memory_ok:
  "dict_ok (core (new_memory aid)) \<and> core_chars (new_memory aid) \<le> CORE_MEMORY_LIMIT
   \<and> length (recall (new_memory aid)) \<le> RECALL_MEMORY_LIMIT"
  by (simp add: new_memory_def dict_ok_def core_chars_def CORE_MEMORY_LIMIT_def)

lemma core_chars_split:
  "dict_ok d \<Longrightarrow> (key, b) \<in> set d \<Longrightarrow>
   sum_list (map (\<lambda>(k, b). len (content b)) d) = core_chars_except key d + len (content b)"
proof (induction d)
  case Nil
  then show ?case by simp
next
  case (Cons e d)
  obtain k c where e: "e = (k, c)" by (cases e)
  show ?case
  proof (cases "k = key")
    case True
    with Cons.prems e have "key \<notin> fst ` set d" by (simp add: dict_ok_def)
    then have nf: "filter (\<lambda>(k, b). k \<noteq> key) d = d"
      by (auto simp: filter_id_conv rev_image_eqI)
    from \<open>key \<notin> fst ` set d\<close> Cons.prems(2) e True have "b = c"
      by (auto simp: rev_image_eqI)
    with e True nf show ?thesis by (simp add: core_chars_except_def)
  next
    case False
    with Cons.prems e have "(key, b) \<in> set d" "dict_ok d" by (auto simp: dict_ok_def)
    with Cons.IH e False show ?thesis by (simp add: core_chars_except_def)
  qed
qed

lemma core_chars_except_absent:
  "key \<notin> fst ` set d \<Longrightarrow> core_chars_except key d = sum_list (map (\<lambda>(k, b). len (content b)) d)"
proof -
  assume "key \<notin> fst ` set d"
  then have "filter (\<lambda>(k, b). k \<noteq> key) d = d"
    by (auto simp: filter_id_conv rev_image_eqI)
  then show ?thesis by (simp add: core_chars_except_def)
qed

lemma set_content_keys: "map fst (set_content key cont t1 d) = map fst d"
  by (induction d) (auto simp: set_content_def)

lemma set_content_except:
  "core_chars_except key (set_content key cont t1 d) = core_chars_except key d"
  by (induction d) (auto simp: set_content_def core_chars_except_def)

lemma set_content_lookup:
  "map_of (set_content key cont t1 d) k =
     (if k = key then map_option (\<lambda>b. b\<lparr>content := cont, updated_at := t1\<rparr>) (map_of d key)
      else map_of d k)"
  by (induction d) (auto simp: set_content_def)

lemma set_content_chars:
  assumes "dict_ok d" "key \<in> fst ` set d"
  shows "sum_list (map (\<lambda>(k, b). len (content b)) (set_content key cont t1 d))
           = core_chars_except key d + len cont"
proof -
  from assms(2) obtain b where b: "(key, b) \<in> set d" by auto
  have ok: "dict_ok (set_content key cont t1 d)"
    using assms(1) by (simp add: dict_ok_def set_content_keys)
  have "(key, b\<lparr>content := cont, updated_at := t1\<rparr>) \<in> set (set_content key cont t1 d)"
    using b by (force simp: set_content_def)
  from core_chars_split [OF ok this] show ?thesis by (simp add: set_content_except)
qed


lemma core_upsert_existing:
  "key \<in> fst ` set (core mm) \<Longrightarrow>
   core_upsert h t1 t2 mm key cont = Inr (mm\<lparr>core := set_content key cont t1 (core mm)\<rparr>)"
  by (simp add: core_upsert_def)

lemma core_upsert_new:
  "key \<notin> fst ` set (core mm) \<Longrightarrow> h cont = Inr x \<Longrightarrow>
   core_upsert h t1 t2 mm key cont =
     Inr (mm\<lparr>core := core mm @
       [(key, \<lparr>block_id = ''core_'' @ key @ ''_'' @ x, content = cont,
               memory_type = CORE, created_at = t1, updated_at = t2, importance = 1,
               access_count = 0, tags = []\<rparr>)]\<rparr>)"
  by (simp add: core_upsert_def)

lemma core_upsert_raises:
  "key \<notin> fst ` set (core mm) \<Longrightarrow> h cont = Inl e \<Longrightarrow> core_upsert h t1 t2 mm key cont = Inl e"
  by (simp add: core_upsert_def)

text \<open>The upsert succeeds exactly when the key is stored already or the hash is computed.\<close>

lemma core_upsert_Inr_iff:
  "(\<exists>mm'. core_upsert h t1 t2 mm key cont = Inr mm')
     \<longleftrightarrow> (key \<in> fst ` set (core mm) \<or> (\<exists>x. h cont = Inr x))"
  by (cases "h cont") (auto simp: core_upsert_def)

lemma core_upsert_props:
  assumes "dict_ok (core mm)"
      and "core_upsert h t1 t2 mm key cont = Inr mm'"
  shows "dict_ok (core mm')"
    and "core_chars mm' = core_chars_except key (core mm) + len cont"
    and "map_option content (map_of (core mm') key) = Some cont"
    and "k \<noteq> key \<Longrightarrow> map_of (core mm') k = map_of (core mm) k"
    and "recall mm' = recall mm"
    and "archival_index mm' = archival_index mm"
proof -
  show "recall mm' = recall mm"
    using assms(2) by (auto simp: core_upsert_def split: if_splits sum.splits)
  show "archival_index mm' = archival_index mm"
    using assms(2) by (auto simp: core_upsert_def split: if_splits sum.splits)
  show "dict_ok (core mm')"
    using assms
    by (auto simp: core_upsert_def dict_ok_def set_content_keys split: if_splits sum.splits)
  show "core_chars mm' = core_chars_except key (core mm) + len cont"
  proof (cases "key \<in> fst ` set (core mm)")
    case True
    with assms(2) have "mm' = mm\<lparr>core := set_content key cont t1 (core mm)\<rparr>"
      by (simp add: core_upsert_existing)
    with True assms(1) show ?thesis by (simp add: core_chars_def set_content_chars)
  next
    case False
    with assms(2) show ?thesis
      by (auto simp: core_upsert_def core_chars_def core_chars_except_absent
               split: sum.splits)
  qed
  show "map_option content (map_of (core mm') key) = Some cont"
  proof (cases "key \<in> fst ` set (core mm)")
    case True
    then obtain b where "map_of (core mm) key = Some b"
      by (metis domD dom_map_of_conv_image_fst)
    with True assms(2) show ?thesis
      by (auto simp: core_upsert_def set_content_lookup)
  next
    case False
    then have "map_of (core mm) key = None" by (simp add: map_of_eq_None_iff)
    with False assms(2) show ?thesis
      by (auto simp: core_upsert_def map_add_def split: sum.splits)
  qed
  show "map_of (core mm') k = map_of (core mm) k" if "k \<noteq> key"
    using that assms(2)
    by (auto simp: core_upsert_def set_content_lookup map_add_def
             split: if_splits sum.splits option.splits)
qed

text \<open>The four ways through \<open>update_core_memory\<close>: the content is rejected; the hash
  raises, before anything is stored; the block is stored and the write raises; the block
  is stored and the write returns.\<close>

lemma update_core_memory_reject:
  "core_chars_except key (core mm) + len cont > CORE_MEMORY_LIMIT \<Longrightarrow>
   update_core_memory h save t1 t2 mm key cont = (Inr False, mm)"
  by (simp add: update_core_memory_def Let_def)

lemma update_core_memory_hash_raises:
  "core_chars_except key (core mm) + len cont \<le> CORE_MEMORY_LIMIT \<Longrightarrow>
   core_upsert h t1 t2 mm key cont = Inl e \<Longrightarrow>
   update_core_memory h save t1 t2 mm key cont = (Inl e, mm)"
  by (simp add: update_core_memory_def Let_def)

lemma update_core_memory_save_raises:
  "core_chars_except key (core mm) + len cont \<le> CORE_MEMORY_LIMIT \<Longrightarrow>
   core_upsert h t1 t2 mm key cont = Inr mm' \<Longrightarrow>
   update_core_memory h (Some e) t1 t2 mm key cont = (Inl e, mm')"
  by (simp add: update_core_memory_def Let_def)

lemma update_core_memory_accept:
  "core_chars_except key (core mm) + len cont \<le> CORE_MEMORY_LIMIT \<Longrightarrow>
   core_upsert h t1 t2 mm key cont = Inr mm' \<Longrightarrow>
   update_core_memory h None t1 t2 mm key cont = (Inr True, mm')"
  by (simp add: update_core_memory_def Let_def)

text \<open>Whatever the hash and the write do, the store after the call is a dictionary within
  the limit.\<close>

lemma update_core_memory_invariant:
  assumes "dict_ok (core mm)" "core_chars mm \<le> CORE_MEMORY_LIMIT"
  shows "dict_ok (core (snd (update_core_memory h save t1 t2 mm key cont)))
       \<and> core_chars (snd (update_core_memory h save t1 t2 mm key cont)) \<le> CORE_MEMORY_LIMIT"
proof (cases "core_chars_except key (core mm) + len cont > CORE_MEMORY_LIMIT")
  case True
  with assms show ?thesis by (simp add: update_core_memory_reject)
next
  case False
  then have le: "core_chars_except key (core mm) + len cont \<le> CORE_MEMORY_LIMIT" by simp
  show ?thesis
  proof (cases "core_upsert h t1 t2 mm key cont")
    case (Inl e)
    from update_core_memory_hash_raises [OF le Inl] assms show ?thesis by simp
  next
    case (Inr mm')
    note p = core_upsert_props(1,2) [OF assms(1) Inr]
    show ?thesis
    proof (cases save)
      case None
      with update_core_memory_accept [OF le Inr] p le show ?thesis by simp
    next
      case (Some e)
      with update_core_memory_save_raises [OF le Inr] p le show ?thesis by simp
    qed
  qed
qed

lemma update_trace_invariant:
  "dict_ok (core mm) \<Longrightarrow> core_chars mm \<le> CORE_MEMORY_LIMIT \<Longrightarrow>
   s \<in> set (update_trace h mm calls) \<Longrightarrow>
   dict_ok (core s) \<and> core_chars s \<le> CORE_MEMORY_LIMIT"
proof (induction calls arbitrary: mm)
  case Nil
  then show ?case by simp
next
  case (Cons c calls)
  obtain key cont t1 t2 save where c: "c = (key, cont, t1, t2, save)" by (cases c)
  from update_core_memory_invariant [OF Cons.prems(1,2)]
  have "dict_ok (core (snd (update_core_memory h save t1 t2 mm key cont)))"
       "core_chars (snd (update_core_memory h save t1 t2 mm key cont)) \<le> CORE_MEMORY_LIMIT"
    by simp_all
  from Cons.IH [OF this] Cons.prems c show ?case by auto
qed

text \<open>
  Claim C1. From a store whose core dictionary is within \<open>CORE_MEMORY_LIMIT\<close>, every
  store that a sequence of \<open>update_core_memory\<close> calls passes through is within the limit,
  whether the calls return or raise. A call for which the other blocks' combined length
  plus the new content exceeds the limit returns \<open>False\<close> and leaves the store as it was.
  Any other call in which the write of the core file raises nothing, and in which the key
  is stored already or the hash of the content is computed, returns \<open>True\<close>, stores the
  content under the key, leaves every other key, the recall buffer and the archival index
  as they were, and makes the total the other blocks' length plus the new content.
\<close>

theorem update_core_memory_limit:
  assumes "dict_ok (core mm)" and "core_chars mm \<le> CORE_MEMORY_LIMIT"
  shows "(\<forall>s \<in> set (update_trace h mm calls). core_chars s \<le> CORE_MEMORY_LIMIT)
     \<and> (core_chars_except key (core mm) + len cont > CORE_MEMORY_LIMIT \<longrightarrow>
          update_core_memory h save t1 t2 mm key cont = (Inr False, mm))
     \<and> (core_chars_except key (core mm) + len cont \<le> CORE_MEMORY_LIMIT
        \<and> save = None \<and> (key \<in> fst ` set (core mm) \<or> (\<exists>x. h cont = Inr x)) \<longrightarrow>
          fst (update_core_memory h save t1 t2 mm key cont) = Inr True
        \<and> map_option content
             (map_of (core (snd (update_core_memory h save t1 t2 mm key cont))) key) = Some cont
        \<and> (\<forall>k. k \<noteq> key \<longrightarrow>
              map_of (core (snd (update_core_memory h save t1 t2 mm key cont))) k
                = map_of (core mm) k)
        \<and> core_chars (snd (update_core_memory h save t1 t2 mm key cont))
            = core_chars_except key (core mm) + len cont
        \<and> recall (snd (update_core_memory h save t1 t2 mm key cont)) = recall mm
        \<and> archival_index (snd (update_core_memory h save t1 t2 mm key cont))
            = archival_index mm)"
proof -
  have 1: "\<forall>s \<in> set (update_trace h mm calls). core_chars s \<le> CORE_MEMORY_LIMIT"
    using update_trace_invariant [OF assms] by blast
  have 2: "core_chars_except key (core mm) + len cont > CORE_MEMORY_LIMIT \<longrightarrow>
          update_core_memory h save t1 t2 mm key cont = (Inr False, mm)"
    by (simp add: update_core_memory_reject)
  have 3: "fst (update_core_memory h save t1 t2 mm key cont) = Inr True
        \<and> map_option content
             (map_of (core (snd (update_core_memory h save t1 t2 mm key cont))) key) = Some cont
        \<and> (\<forall>k. k \<noteq> key \<longrightarrow>
              map_of (core (snd (update_core_memory h save t1 t2 mm key cont))) k
                = map_of (core mm) k)
        \<and> core_chars (snd (update_core_memory h save t1 t2 mm key cont))
            = core_chars_except key (core mm) + len cont
        \<and> recall (snd (update_core_memory h save t1 t2 mm key cont)) = recall mm
        \<and> archival_index (snd (update_core_memory h save t1 t2 mm key cont))
            = archival_index mm"
    if le: "core_chars_except key (core mm) + len cont \<le> CORE_MEMORY_LIMIT"
      and sv: "save = None"
      and up: "key \<in> fst ` set (core mm) \<or> (\<exists>x. h cont = Inr x)"
  proof -
    from up obtain mm' where u: "core_upsert h t1 t2 mm key cont = Inr mm'"
      using core_upsert_Inr_iff [of h t1 t2 mm key cont] by blast
    from update_core_memory_accept [OF le u] sv
    have r: "update_core_memory h save t1 t2 mm key cont = (Inr True, mm')" by simp
    note p = core_upsert_props [OF assms(1) u]
    from p(4) have "\<forall>k. k \<noteq> key \<longrightarrow> map_of (core mm') k = map_of (core mm) k" by blast
    with r p(2,3,5,6) show ?thesis by simp
  qed
  from 1 2 3 show ?thesis by blast
qed

text \<open>A store with 2000 characters under \<open>persona\<close>: 49 more characters under a new key
  are rejected, 2048 characters replacing \<open>persona\<close> are accepted and the call returns
  \<open>True\<close> when the write succeeds; after a sequence of three calls, of which the last one
  fails to write, the store is within the limit.\<close>

theorem update_core_memory_limit_witness:
  "dict_ok (core persona_store) \<and> core_chars persona_store \<le> CORE_MEMORY_LIMIT
   \<and> update_core_memory (\<lambda>c. Inr ''h'') None ''t1'' ''t2'' persona_store ''user_info''
        (replicate 49 (CHR ''y'')) = (Inr False, persona_store)
   \<and> fst (update_core_memory (\<lambda>c. Inr ''h'') None ''t1'' ''t2'' persona_store ''persona''
        (replicate 2048 (CHR ''z''))) = Inr True
   \<and> core_chars (snd (update_core_memory (\<lambda>c. Inr ''h'') None ''t1'' ''t2'' persona_store
        ''persona'' (replicate 2048 (CHR ''z'')))) = 2048
   \<and> core_chars (last (update_trace (\<lambda>c. Inr ''h'') persona_store
                    [(''user_info'', replicate 49 (CHR ''y''), ''t1'', ''t2'', None),
                     (''persona'', replicate 2048 (CHR ''z''), ''t3'', ''t4'', None),
                     (''persona'', ''hi'', ''t5'', ''t6'',
                      Some (PyException ''[Errno 28] No space left on device''))]))
         \<le> CORE_MEMORY_LIMIT"
proof -
  let ?calls = "[(''user_info'', replicate 49 (CHR ''y''), ''t1'', ''t2'', None),
                 (''persona'', replicate 2048 (CHR ''z''), ''t3'', ''t4'', None),
                 (''persona'', ''hi'', ''t5'', ''t6'',
                  Some (PyException ''[Errno 28] No space left on device''))]"
  have ok: "dict_ok (core persona_store)"
    by (simp add: persona_store_def dict_ok_def)
  have le: "core_chars persona_store \<le> CORE_MEMORY_LIMIT"
    by (simp add: persona_store_def core_chars_def block_of_def len_def CORE_MEMORY_LIMIT_def)
  have r: "core_chars_except ''user_info'' (core persona_store) + len (replicate 49 (CHR ''y''))
             > CORE_MEMORY_LIMIT"
    by (simp add: persona_store_def core_chars_except_def block_of_def len_def
                  CORE_MEMORY_LIMIT_def)
  have a: "core_chars_except ''persona'' (core persona_store) + len (replicate 2048 (CHR ''z''))
             = 2048"
    by (simp add: persona_store_def core_chars_except_def len_def)
  have k: "''persona'' \<in> fst ` set (core persona_store)"
    by (simp add: persona_store_def)
  from update_core_memory_limit [OF ok le, where key = "''user_info''"
         and cont = "replicate 49 (CHR ''y'')" and h = "\<lambda>c. Inr ''h''" and save = None
         and ?t1.0 = "''t1''" and ?t2.0 = "''t2''" and calls = ?calls] r
  have 1: "update_core_memory (\<lambda>c. Inr ''h'') None ''t1'' ''t2'' persona_store ''user_info''
        (replicate 49 (CHR ''y'')) = (Inr False, persona_store)"
    and 3: "\<forall>s \<in> set (update_trace (\<lambda>c. Inr ''h'') persona_store ?calls).
         core_chars s \<le> CORE_MEMORY_LIMIT"
    by blast+
  from update_core_memory_limit [OF ok le, where key = "''persona''"
         and cont = "replicate 2048 (CHR ''z'')" and h = "\<lambda>c. Inr ''h''" and save = None
         and ?t1.0 = "''t1''" and ?t2.0 = "''t2''"] a k
  have 2: "fst (update_core_memory (\<lambda>c. Inr ''h'') None ''t1'' ''t2'' persona_store ''persona''
             (replicate 2048 (CHR ''z''))) = Inr True"
    and 5: "core_chars (snd (update_core_memory (\<lambda>c. Inr ''h'') None ''t1'' ''t2'' persona_store
             ''persona'' (replicate 2048 (CHR ''z'')))) = 2048"
    by (simp_all add: CORE_MEMORY_LIMIT_def)
  have "last (update_trace (\<lambda>c. Inr ''h'') persona_store ?calls)
        \<in> set (update_trace (\<lambda>c. Inr ''h'') persona_store ?calls)"
    by (rule last_in_set) simp
  with 3 have 4: "core_chars (last (update_trace (\<lambda>c. Inr ''h'') persona_store ?calls))
         \<le> CORE_MEMORY_LIMIT"
    by blast
  from ok le 1 2 5 4 show ?thesis by blast
qed

text \<open>The claim as stated fails where the write raises. The store holds 2000 characters
  under \<open>persona\<close> and the new content \<open>hi\<close> is within the limit, so the call is not
  rejected; the disk is full, \<open>_save_core_memory\<close> raises \<open>OSError\<close>, and the call raises it
  instead of returning \<open>True\<close>, with the new content stored.\<close>

theorem update_core_memory_write_counterexample:
  "dict_ok (core persona_store) \<and> core_chars persona_store \<le> CORE_MEMORY_LIMIT
   \<and> core_chars_except ''persona'' (core persona_store) + len ''hi'' \<le> CORE_MEMORY_LIMIT
   \<and> fst (update_core_memory (\<lambda>c. Inr ''h'')
            (Some (PyException ''[Errno 28] No space left on device''))
            ''t1'' ''t2'' persona_store ''persona'' ''hi'')
       = Inl (PyException ''[Errno 28] No space left on device'')
   \<and> fst (update_core_memory (\<lambda>c. Inr ''h'')
            (Some (PyException ''[Errno 28] No space left on device''))
            ''t1'' ''t2'' persona_store ''persona'' ''hi'') \<noteq> Inr True
   \<and> map_option content
        (map_of (core (snd (update_core_memory (\<lambda>c. Inr ''h'')
            (Some (PyException ''[Errno 28] No space left on device''))
            ''t1'' ''t2'' persona_store ''persona'' ''hi''))) ''persona'') = Some ''hi''"
  by (simp add: update_core_memory_def core_upsert_def set_content_def Let_def
        persona_store_def block_of_def dict_ok_def core_chars_def core_chars_except_def
        len_def CORE_MEMORY_LIMIT_def)

section \<open>Properties of the archival search\<close>

text \<open>\<open>str_in\<close> is the substring test: \<open>w\<close> occurs in \<open>s\<close> between a prefix and a rest.\<close>

lemma starts_with_iff: "starts_with w s \<longleftrightarrow> (\<exists>r. s = w @ r)"
  by (induction w s rule: starts_with.induct) auto

lemma str_in_iff: "str_in w s \<longleftrightarrow> (\<exists>p r. s = p @ w @ r)"
proof (induction s)
  case Nil
  then show ?case by simp
next
  case (Cons d s)
  show ?case
  proof
    assume "str_in w (d # s)"
    then consider "starts_with w (d # s)" | "str_in w s" by auto
    then show "\<exists>p r. d # s = p @ w @ r"
    proof cases
      case 1
      then obtain r where "d # s = w @ r" by (auto simp: starts_with_iff)
      then have "d # s = [] @ w @ r" by simp
      then show ?thesis by blast
    next
      case 2
      with Cons.IH obtain p r where "s = p @ w @ r" by auto
      then have "d # s = (d # p) @ w @ r" by simp
      then show ?thesis by blast
    qed
  next
    assume "\<exists>p r. d # s = p @ w @ r"
    then obtain p r where pr: "d # s = p @ w @ r" by auto
    show "str_in w (d # s)"
    proof (cases p)
      case Nil
      with pr have "starts_with w (d # s)" by (auto simp: starts_with_iff)
      then show ?thesis by simp
    next
      case (Cons e p')
      with pr have "s = p' @ w @ r" by simp
      with Cons.IH have "str_in w s" by blast
      then show ?thesis by simp
    qed
  qed
qed

lemma touch_fields [simp]:
  "content (touch b) = content b" "tags (touch b) = tags b"
  "importance (touch b) = importance b" "block_id (touch b) = block_id b"
  "access_count (touch b) = access_count b + 1"
  by (simp_all add: touch_def)

lemma block_score_touch [simp]: "block_score ws (touch b) = block_score ws b"
  by (simp add: block_score_def)

lemma tag_excluded_touch [simp]: "tag_excluded tg (touch b) = tag_excluded tg b"
  by (simp add: tag_excluded_def split: option.splits)

lemma search_scan_hits:
  "(s, b) \<in> set (fst (search_scan ws tg idx)) \<Longrightarrow>
   \<exists>k b0. (k, b0) \<in> set idx \<and> b = touch b0 \<and> \<not> tag_excluded tg b0
          \<and> s = block_score ws b0 \<and> 0 < s"
proof (induction idx)
  case Nil
  then show ?case by simp
next
  case (Cons e idx)
  obtain k c where e: "e = (k, c)" by (cases e)
  from Cons.prems e consider "(s, b) \<in> set (fst (search_scan ws tg idx))"
    | "b = touch c" "\<not> tag_excluded tg c" "s = block_score ws c" "0 < s"
    by (auto simp: Let_def split: prod.splits if_splits)
  then show ?case
  proof cases
    case 1
    with Cons.IH e show ?thesis by auto
  next
    case 2
    with e show ?thesis by auto
  qed
qed

lemma set_sort_results [simp]: "set (sort_results rs) = set rs"
  by (simp add: sort_results_def)

lemma sort_results_sorted:
  "sorted_wrt (\<lambda>x y. (fst y, importance (snd y)) \<le> (fst x, importance (snd x))) (sort_results rs)"
proof -
  let ?f = "\<lambda>x::int \<times> MemoryBlock. (fst x, importance (snd x))"
  have "sorted (map ?f (sort_key ?f (rev rs)))" by (rule sorted_sort_key)
  then have "sorted_wrt (\<lambda>x y. ?f x \<le> ?f y) (sort_key ?f (rev rs))"
    by (simp only: sorted_map)
  then show ?thesis
    unfolding sort_results_def by (simp only: sorted_wrt_rev)
qed

lemma slice_to_length: "0 \<le> i \<Longrightarrow> len (slice_to xs i) \<le> i"
  by (simp add: slice_to_def slice_bound_def len_def)

lemma set_slice_to: "set (slice_to xs i) \<subseteq> set xs"
  by (simp add: slice_to_def set_take_subset)

lemma block_score_pos:
  "0 < block_score ws b \<Longrightarrow> \<exists>w \<in> set ws. str_in w (lower (content b))"
proof -
  assume "0 < block_score ws b"
  then have "filter (\<lambda>w. str_in w (lower (content b))) ws \<noteq> []"
    by (auto simp: block_score_def len_def Let_def)
  then obtain w where "w \<in> set (filter (\<lambda>w. str_in w (lower (content b))) ws)"
    by (meson last_in_set)
  then show ?thesis by auto
qed

lemma fst_search_archival:
  "fst (search_archival mm query limit tg) =
     map snd (slice_to (sort_results (fst (search_scan (remdups (split (lower query))) tg
                                            (archival_index mm)))) limit)"
  by (simp add: search_archival_def Let_def split: prod.splits)

lemma search_archival_hit:
  assumes "b \<in> set (fst (search_archival mm query limit tg))"
  shows "\<exists>k b0. (k, b0) \<in> set (archival_index mm) \<and> b = touch b0 \<and> \<not> tag_excluded tg b0
           \<and> 0 < block_score (remdups (split (lower query))) b0"
proof -
  define ws where "ws = remdups (split (lower query))"
  define R where "R = fst (search_scan ws tg (archival_index mm))"
  have "fst (search_archival mm query limit tg) = map snd (slice_to (sort_results R) limit)"
    unfolding R_def ws_def by (rule fst_search_archival)
  with assms have "b \<in> snd ` set (slice_to (sort_results R) limit)" by simp
  then obtain x where x: "x \<in> set (slice_to (sort_results R) limit)" "b = snd x" by blast
  have "set (slice_to (sort_results R) limit) \<subseteq> set (sort_results R)" by (rule set_slice_to)
  with x(1) have "x \<in> set R" by auto
  then have "(fst x, b) \<in> set (fst (search_scan ws tg (archival_index mm)))"
    using x(2) by (simp add: R_def)
  from search_scan_hits [OF this] obtain k b0 where h:
    "(k, b0) \<in> set (archival_index mm)" "b = touch b0" "\<not> tag_excluded tg b0"
    "fst x = block_score ws b0" "0 < fst x"
    by blast
  from h(4,5) have "0 < block_score ws b0" by simp
  with h(1,2,3) show ?thesis unfolding ws_def by blast
qed


text \<open>
  Claim C4. Every block that \<open>search_archival\<close> returns is a block of the archival index
  (with its access counter incremented) whose lowercased content contains at least one
  word of the lowercased query, and, when a non-empty tag filter is given, one of whose
  tags is in the filter. The returned list is ordered by the number of distinct query
  words found in the content, descending, and for equal numbers by importance, descending;
  for a limit that is not negative it has at most \<open>limit\<close> blocks.
\<close>

theorem search_archival_ranked:
  "(\<forall>b \<in> set (fst (search_archival mm query limit tg)).
        (\<exists>k b0. (k, b0) \<in> set (archival_index mm) \<and> b = touch b0)
      \<and> (\<exists>w \<in> set (split (lower query)). str_in w (lower (content b)))
      \<and> (\<forall>ts. tg = Some ts \<and> ts \<noteq> [] \<longrightarrow> (\<exists>t \<in> set ts. t \<in> set (tags b))))
   \<and> sorted_wrt (\<lambda>b1 b2.
          block_score (remdups (split (lower query))) b2
            < block_score (remdups (split (lower query))) b1
        \<or> (block_score (remdups (split (lower query))) b2
              = block_score (remdups (split (lower query))) b1
            \<and> importance b2 \<le> importance b1))
        (fst (search_archival mm query limit tg))
   \<and> (0 \<le> limit \<longrightarrow> len (fst (search_archival mm query limit tg)) \<le> limit)"
proof (intro conjI ballI impI allI)
  fix b assume b: "b \<in> set (fst (search_archival mm query limit tg))"
  from search_archival_hit [OF b] obtain k b0 where h:
    "(k, b0) \<in> set (archival_index mm)" "b = touch b0" "\<not> tag_excluded tg b0"
    "0 < block_score (remdups (split (lower query))) b0"
    by blast
  from h(1,2) show "\<exists>k b0. (k, b0) \<in> set (archival_index mm) \<and> b = touch b0" by blast
  from block_score_pos [OF h(4)] h(2)
  show "\<exists>w \<in> set (split (lower query)). str_in w (lower (content b))" by simp
  fix ts assume "tg = Some ts \<and> ts \<noteq> []"
  with h(3) have "list_ex (\<lambda>t. t \<in> set (tags b0)) ts" by (simp add: tag_excluded_def)
  with h(2) show "\<exists>t \<in> set ts. t \<in> set (tags b)" by (simp add: list_ex_iff)
next
  define ws where "ws = remdups (split (lower query))"
  define R where "R = fst (search_scan ws tg (archival_index mm))"
  define S where "S = slice_to (sort_results R) limit"
  have res: "fst (search_archival mm query limit tg) = map snd S"
    unfolding S_def R_def ws_def by (rule fst_search_archival)
  have sub: "set S \<subseteq> set R"
    using set_slice_to [of "sort_results R" limit] by (simp add: S_def)
  have "sorted_wrt (\<lambda>x y. (fst y, importance (snd y)) \<le> (fst x, importance (snd x))) S"
    unfolding S_def slice_to_def by (rule sorted_wrt_take) (rule sort_results_sorted)
  moreover have "block_score ws (snd y) < block_score ws (snd x)
        \<or> (block_score ws (snd y) = block_score ws (snd x)
            \<and> importance (snd y) \<le> importance (snd x))"
    if "x \<in> set S" "y \<in> set S"
       "(fst y, importance (snd y)) \<le> (fst x, importance (snd x))" for x y
  proof -
    have sc: "fst z = block_score ws (snd z)" if "z \<in> set S" for z
    proof -
      from that sub have "(fst z, snd z) \<in> set (fst (search_scan ws tg (archival_index mm)))"
        by (auto simp: R_def)
      from search_scan_hits [OF this] show ?thesis by auto
    qed
    from that(3) sc [OF that(1)] sc [OF that(2)] show ?thesis by auto
  qed
  ultimately have "sorted_wrt (\<lambda>b1 b2. block_score ws b2 < block_score ws b1
        \<or> (block_score ws b2 = block_score ws b1 \<and> importance b2 \<le> importance b1)) (map snd S)"
    by (rule sorted_wrt_map_mono)
  then show "sorted_wrt (\<lambda>b1 b2.
          block_score (remdups (split (lower query))) b2
            < block_score (remdups (split (lower query))) b1
        \<or> (block_score (remdups (split (lower query))) b2
              = block_score (remdups (split (lower query))) b1
            \<and> importance b2 \<le> importance b1))
        (fst (search_archival mm query limit tg))"
    unfolding res ws_def .
next
  assume "0 \<le> limit"
  then show "len (fst (search_archival mm query limit tg)) \<le> limit"
    using slice_to_length [of limit] by (simp add: fst_search_archival len_def)
qed


lemmas search_eval =
  search_archival_def foo_bar_store_def block_of_def split_def lower_def lower_char_def
  is_space_def block_score_def tag_excluded_def touch_def sort_results_def slice_to_def
  slice_bound_def len_def Let_def

text \<open>The query \<open>foo bar\<close> on the example corpus, without and with the tag filter
  \<open>music\<close>: the block without a query word is left out, two words rank before one, and of
  the two blocks with one word the more important one comes first.\<close>

theorem search_archival_ranked_witness:
  "map block_id (fst (search_archival foo_bar_store ''foo bar'' 5 None))
     = [''arch_2'', ''arch_3'', ''arch_1'']
   \<and> len (fst (search_archival foo_bar_store ''foo bar'' 5 None)) \<le> 5
   \<and> map block_id (fst (search_archival foo_bar_store ''foo bar'' 5 (Some [''music''])))
     = [''arch_2'', ''arch_1'']
   \<and> (\<exists>t \<in> set [''music''].
         t \<in> set (tags (hd (fst (search_archival foo_bar_store ''foo bar'' 5 (Some [''music'']))))))"
proof -
  have 1: "map block_id (fst (search_archival foo_bar_store ''foo bar'' 5 None))
     = [''arch_2'', ''arch_3'', ''arch_1'']"
    by (simp add: search_eval)
  have 2: "map block_id (fst (search_archival foo_bar_store ''foo bar'' 5 (Some [''music''])))
     = [''arch_2'', ''arch_1'']"
    by (simp add: search_eval)
  from search_archival_ranked [of foo_bar_store "''foo bar''" 5 None]
  have 3: "len (fst (search_archival foo_bar_store ''foo bar'' 5 None)) \<le> 5"
    by simp
  from 2 have "fst (search_archival foo_bar_store ''foo bar'' 5 (Some [''music''])) \<noteq> []"
    by auto
  then have "hd (fst (search_archival foo_bar_store ''foo bar'' 5 (Some [''music''])))
      \<in> set (fst (search_archival foo_bar_store ''foo bar'' 5 (Some [''music''])))"
    by (rule hd_in_set)
  with search_archival_ranked [of foo_bar_store "''foo bar''" 5 "Some [''music'']"]
  have 4: "\<exists>t \<in> set [''music''].
         t \<in> set (tags (hd (fst (search_archival foo_bar_store ''foo bar'' 5 (Some [''music''])))))"
    by blast
  from 1 2 3 4 show ?thesis by blast
qed

section \<open>Properties of the attention budget\<close>

lemma recall_fill_split:
  "recall_fill remaining xs acc t = (sel, t') \<Longrightarrow>
   \<exists>taken rest. xs = taken @ rest \<and> sel = rev taken @ acc \<and> t' = t + tokens_of taken
      \<and> (taken \<noteq> [] \<longrightarrow> t' \<le> remaining)
      \<and> (rest \<noteq> [] \<longrightarrow> t' + msg_tokens (hd rest) > remaining)"
proof (induction xs arbitrary: acc t)
  case Nil
  then show ?case by (simp add: tokens_of_def)
next
  case (Cons m xs)
  show ?case
  proof (cases "t + msg_tokens m > remaining")
    case True
    with Cons.prems have "sel = acc" "t' = t" by simp_all
    with True have "m # xs = [] @ (m # xs) \<and> sel = rev [] @ acc \<and> t' = t + tokens_of []
      \<and> ([] \<noteq> ([]::Message list) \<longrightarrow> t' \<le> remaining)
      \<and> (m # xs \<noteq> [] \<longrightarrow> t' + msg_tokens (hd (m # xs)) > remaining)"
      by (simp add: tokens_of_def)
    then show ?thesis by blast
  next
    case False
    with Cons.prems have "recall_fill remaining xs (m # acc) (t + msg_tokens m) = (sel, t')"
      by simp
    from Cons.IH [OF this] obtain taken rest where h:
      "xs = taken @ rest" "sel = rev taken @ m # acc" "t' = t + msg_tokens m + tokens_of taken"
      "taken \<noteq> [] \<longrightarrow> t' \<le> remaining"
      "rest \<noteq> [] \<longrightarrow> t' + msg_tokens (hd rest) > remaining"
      by blast
    have le: "t' \<le> remaining"
    proof (cases "taken = []")
      case True
      with h(3) False show ?thesis by (simp add: tokens_of_def)
    next
      case False
      with h(4) show ?thesis by simp
    qed
    from h le have "m # xs = (m # taken) @ rest \<and> sel = rev (m # taken) @ acc
      \<and> t' = t + tokens_of (m # taken)
      \<and> (m # taken \<noteq> [] \<longrightarrow> t' \<le> remaining)
      \<and> (rest \<noteq> [] \<longrightarrow> t' + msg_tokens (hd rest) > remaining)"
      by (simp add: tokens_of_def)
    then show ?thesis by blast
  qed
qed

lemma recall_fill_newest_first:
  assumes "recall_fill remaining (rev msgs) [] 0 = (sel, t')"
  shows "\<exists>older. msgs = older @ sel \<and> t' = tokens_of sel
      \<and> (sel \<noteq> [] \<longrightarrow> tokens_of sel \<le> remaining)
      \<and> (older \<noteq> [] \<longrightarrow> tokens_of sel + msg_tokens (last older) > remaining)"
proof -
  from recall_fill_split [OF assms] obtain taken rest where h:
    "rev msgs = taken @ rest" "sel = rev taken" "t' = tokens_of taken"
    "taken \<noteq> [] \<longrightarrow> t' \<le> remaining"
    "rest \<noteq> [] \<longrightarrow> t' + msg_tokens (hd rest) > remaining"
    by auto
  have tk: "tokens_of sel = tokens_of taken"
    unfolding h(2) tokens_of_def by (simp add: rev_map [symmetric])
  from h(1) have "rev (rev msgs) = rev (taken @ rest)" by simp
  then have m: "msgs = rev rest @ sel" using h(2) by simp
  have l: "rest \<noteq> [] \<Longrightarrow> last (rev rest) = hd rest" by (simp add: last_rev)
  from h(3,4,5) tk h(2) l have "t' = tokens_of sel
      \<and> (sel \<noteq> [] \<longrightarrow> tokens_of sel \<le> remaining)
      \<and> (rev rest \<noteq> [] \<longrightarrow> tokens_of sel + msg_tokens (last (rev rest)) > remaining)"
    by auto
  with m show ?thesis by blast
qed

lemma get_core_memory_recall [simp]: "recall (snd (get_core_memory mm)) = recall mm"
  by (simp add: get_core_memory_def Let_def)

lemma get_core_memory_archival [simp]:
  "archival_index (snd (get_core_memory mm)) = archival_index mm"
  by (simp add: get_core_memory_def Let_def)

lemma get_core_memory_core:
  "core (snd (get_core_memory mm)) = map (\<lambda>(k, b). (k, touch b)) (core mm)"
  by (simp add: get_core_memory_def Let_def)

lemma search_archival_recall [simp]: "recall (snd (search_archival mm q l tg)) = recall mm"
  by (simp add: search_archival_def Let_def split: prod.splits)

lemma search_archival_core [simp]: "core (snd (search_archival mm q l tg)) = core mm"
  by (simp add: search_archival_def Let_def split: prod.splits)

lemma search_scan_index:
  "snd (search_scan ws tg idx) =
     map (\<lambda>(k, b). (k, if \<not> tag_excluded tg b \<and> 0 < block_score ws b then touch b else b)) idx"
  by (induction idx) (auto simp: Let_def split: prod.splits)

lemma search_archival_index:
  "archival_index (snd (search_archival mm q l None)) =
     map (\<lambda>(k, b). (k, if 0 < block_score (remdups (split (lower q))) b then touch b else b))
         (archival_index mm)"
  by (simp add: search_archival_def Let_def split_beta search_scan_index tag_excluded_def)


lemma focus_stage_cases:
  fixes mm full used rem0 fq
  defines "results \<equiv> (case fq of None \<Rightarrow> []
                        | Some q \<Rightarrow> if q = [] then [] else fst (search_archival mm q 5 None))"
  defines "included \<equiv> results \<noteq> [] \<and> estimate_tokens (format_archival results) < rem0 div 3"
  shows "fst (focus_stage mm full used rem0 fq)
           = (if included then full @ ''\<newline>'' @ format_archival results else full)"
    and "fst (snd (focus_stage mm full used rem0 fq))
           = (if included then used + estimate_tokens (format_archival results) else used)"
    and "fst (snd (snd (focus_stage mm full used rem0 fq)))
           = (if included then rem0 - estimate_tokens (format_archival results) else rem0)"
  unfolding included_def results_def
  by (cases fq; simp add: focus_stage_def Let_def split_beta)+

lemma focus_stage_store:
  "snd (snd (snd (focus_stage mm full used rem0 fq)))
     = (case fq of None \<Rightarrow> mm
        | Some q \<Rightarrow> if q = [] then mm else snd (search_archival mm q 5 None))"
  by (cases fq) (simp_all add: focus_stage_def Let_def split_beta)

lemma focus_stage_recall [simp]:
  "recall (snd (snd (snd (focus_stage mm full used rem0 fq)))) = recall mm"
  by (cases fq) (simp_all add: focus_stage_store)

lemma build_context_messages:
  "fst (fst (build_context am mm sp fq)) =
     \<lparr>role = ''system'',
      msg_content = Some (fst (focus_stage (snd (get_core_memory mm))
          (sp @ ''\<newline>\<newline>### CORE MEMORY ###\<newline>'' @ fst (get_core_memory mm))
          (estimate_tokens sp + estimate_tokens (fst (get_core_memory mm)))
          (max_tokens am - (estimate_tokens sp + estimate_tokens (fst (get_core_memory mm))) - 500)
          fq))\<rparr>
     # fst (recall_fill
         (fst (snd (snd (focus_stage (snd (get_core_memory mm))
          (sp @ ''\<newline>\<newline>### CORE MEMORY ###\<newline>'' @ fst (get_core_memory mm))
          (estimate_tokens sp + estimate_tokens (fst (get_core_memory mm)))
          (max_tokens am - (estimate_tokens sp + estimate_tokens (fst (get_core_memory mm))) - 500)
          fq))))
         (rev (recall mm)) [] 0)"
  by (simp add: build_context_def Let_def split_beta get_recall_messages_def)

lemma build_context_store:
  "snd (snd (build_context am mm sp fq)) =
     (case fq of None \<Rightarrow> snd (get_core_memory mm)
      | Some q \<Rightarrow> if q = [] then snd (get_core_memory mm)
                  else snd (search_archival (snd (get_core_memory mm)) q 5 None))"
  by (simp add: build_context_def Let_def split_beta focus_stage_store)

text \<open>
  Claim C3, as the code has it. \<open>build_context\<close> takes the cost of the system prompt and
  of the core memory and a margin of 500 tokens from the budget. When the focus query is
  not empty and the archival search (at most 5 blocks) finds a block, the formatted excerpt
  is appended to the system message, in full, exactly when its estimated cost (length
  divided by 4, rounded down) is strictly less than the remaining budget divided by 3,
  rounded down; otherwise nothing of it is appended. The recall entries after the system
  message are a suffix of the recall buffer in the buffer's order: either none, or entries
  whose total cost fits what is left, and the next older entry, if there is one, would
  overflow it.
\<close>

theorem build_context_budget:
  fixes am mm sp fq
  defines "core_content \<equiv> fst (get_core_memory mm)"
  defines "full_system \<equiv> sp @ ''\<newline>\<newline>### CORE MEMORY ###\<newline>'' @ core_content"
  defines "remaining0 \<equiv>
             max_tokens am - (estimate_tokens sp + estimate_tokens core_content) - 500"
  defines "results \<equiv>
             (case fq of None \<Rightarrow> []
              | Some q \<Rightarrow> if q = [] then []
                          else fst (search_archival (snd (get_core_memory mm)) q 5 None))"
  defines "excerpt \<equiv> format_archival results"
  defines "included \<equiv> results \<noteq> [] \<and> estimate_tokens excerpt < remaining0 div 3"
  defines "remaining1 \<equiv> (if included then remaining0 - estimate_tokens excerpt else remaining0)"
  shows "\<exists>older sel.
           fst (fst (build_context am mm sp fq)) =
             \<lparr>role = ''system'',
              msg_content = Some (if included then full_system @ ''\<newline>'' @ excerpt
                                  else full_system)\<rparr> # sel
         \<and> recall mm = older @ sel
         \<and> (sel \<noteq> [] \<longrightarrow> tokens_of sel \<le> remaining1)
         \<and> (older \<noteq> [] \<longrightarrow> tokens_of sel + msg_tokens (last older) > remaining1)"
proof -
  define fs where "fs = focus_stage (snd (get_core_memory mm)) full_system
          (estimate_tokens sp + estimate_tokens core_content) remaining0 fq"
  have sys: "fst fs = (if included then full_system @ ''\<newline>'' @ excerpt else full_system)"
    unfolding fs_def included_def excerpt_def results_def by (rule focus_stage_cases(1))
  have rem: "fst (snd (snd fs)) = remaining1"
    unfolding fs_def remaining1_def included_def excerpt_def results_def
    by (rule focus_stage_cases(3))
  obtain sel t' where rf: "recall_fill remaining1 (rev (recall mm)) [] 0 = (sel, t')"
    by (cases "recall_fill remaining1 (rev (recall mm)) [] 0")
  have msgs: "fst (fst (build_context am mm sp fq)) =
      \<lparr>role = ''system'', msg_content = Some (fst fs)\<rparr>
      # fst (recall_fill (fst (snd (snd fs))) (rev (recall mm)) [] 0)"
    unfolding fs_def full_system_def remaining0_def core_content_def
    by (rule build_context_messages)
  from recall_fill_newest_first [OF rf] obtain older where o:
    "recall mm = older @ sel"
    "sel \<noteq> [] \<longrightarrow> tokens_of sel \<le> remaining1"
    "older \<noteq> [] \<longrightarrow> tokens_of sel + msg_tokens (last older) > remaining1"
    by blast
  from msgs sys rem rf have "fst (fst (build_context am mm sp fq)) =
             \<lparr>role = ''system'',
              msg_content = Some (if included then full_system @ ''\<newline>'' @ excerpt
                                  else full_system)\<rparr> # sel"
    by simp
  with o show ?thesis by blast
qed

lemmas attention_eval =
  build_context_def focus_stage_def get_core_memory_def get_recall_messages_def
  format_archival_def truncate_str_def estimate_tokens_def msg_tokens_def tokens_of_def
  new_attention_def foo_store_def nexuss_store_def search_eval upper_def upper_char_def

text \<open>A budget of 527 leaves 27 tokens: the excerpt of 8 tokens is below \<open>27 div 3 = 9\<close>
  and is appended; of the recall entries of 5, 10 and 9 tokens the two newest fit the 19
  tokens that are left, and the oldest would overflow them.\<close>

theorem build_context_budget_witness:
  "estimate_tokens (format_archival
       (fst (search_archival (snd (get_core_memory foo_store)) ''foo'' 5 None))) = 8
   \<and> max_tokens (new_attention 527)
        - (estimate_tokens [] + estimate_tokens (fst (get_core_memory foo_store))) - 500 = 27
   \<and> fst (fst (build_context (new_attention 527) foo_store [] (Some ''foo''))) =
       [\<lparr>role = ''system'',
         msg_content = Some ''\<newline>\<newline>### CORE MEMORY ###\<newline>\<newline>\<newline>### RELEVANT MEMORIES ###\<newline>- foo''\<rparr>,
        \<lparr>role = ''assistant'', msg_content = Some (replicate 40 (CHR ''b''))\<rparr>,
        \<lparr>role = ''user'', msg_content = Some (replicate 36 (CHR ''c''))\<rparr>]
   \<and> tokens_of [\<lparr>role = ''assistant'', msg_content = Some (replicate 40 (CHR ''b''))\<rparr>,
                 \<lparr>role = ''user'', msg_content = Some (replicate 36 (CHR ''c''))\<rparr>] \<le> 19
   \<and> tokens_of [\<lparr>role = ''assistant'', msg_content = Some (replicate 40 (CHR ''b''))\<rparr>,
                 \<lparr>role = ''user'', msg_content = Some (replicate 36 (CHR ''c''))\<rparr>]
       + msg_tokens \<lparr>role = ''user'', msg_content = Some (replicate 20 (CHR ''a''))\<rparr> > 19"
proof -
  let ?A = "\<lparr>role = ''user'', msg_content = Some (replicate 20 (CHR ''a''))\<rparr>"
  let ?B = "\<lparr>role = ''assistant'', msg_content = Some (replicate 40 (CHR ''b''))\<rparr>"
  let ?C = "\<lparr>role = ''user'', msg_content = Some (replicate 36 (CHR ''c''))\<rparr>"
  have res: "fst (search_archival (snd (get_core_memory foo_store)) ''foo'' 5 None)
      = [touch (block_of ''arch_0'' ''foo'' ARCHIVAL (1 / 2))]"
    by (simp add: attention_eval)
  have e: "estimate_tokens (format_archival
       (fst (search_archival (snd (get_core_memory foo_store)) ''foo'' 5 None))) = 8"
    unfolding res by (simp add: attention_eval)
  have r: "max_tokens (new_attention 527)
        - (estimate_tokens [] + estimate_tokens (fst (get_core_memory foo_store))) - 500 = 27"
    by (simp add: attention_eval)
  have m: "fst (fst (build_context (new_attention 527) foo_store [] (Some ''foo''))) =
       [\<lparr>role = ''system'',
         msg_content = Some ''\<newline>\<newline>### CORE MEMORY ###\<newline>\<newline>\<newline>### RELEVANT MEMORIES ###\<newline>- foo''\<rparr>,
        ?B, ?C]"
    by (simp add: attention_eval)
  have cm: "get_core_memory foo_store = ([], foo_store)"
    by (simp add: get_core_memory_def foo_store_def)
  have res': "fst (search_archival foo_store ''foo'' 5 None)
      = [touch (block_of ''arch_0'' ''foo'' ARCHIVAL (1 / 2))]"
    using res by (simp add: cm)
  have fa: "format_archival [touch (block_of ''arch_0'' ''foo'' ARCHIVAL (1 / 2))]
      = ''\<newline>### RELEVANT MEMORIES ###\<newline>- foo''"
    by (simp add: format_archival_def truncate_str_def block_of_def touch_def len_def)
  have mt: "max_tokens (new_attention 527) = 527" by (simp add: new_attention_def)
  have "\<exists>older sel.
    fst (fst (build_context (new_attention 527) foo_store [] (Some ''foo''))) =
       \<lparr>role = ''system'',
        msg_content = Some ''\<newline>\<newline>### CORE MEMORY ###\<newline>\<newline>\<newline>### RELEVANT MEMORIES ###\<newline>- foo''\<rparr> # sel
    \<and> recall foo_store = older @ sel
    \<and> (sel \<noteq> [] \<longrightarrow> tokens_of sel \<le> 19)
    \<and> (older \<noteq> [] \<longrightarrow> tokens_of sel + msg_tokens (last older) > 19)"
    using build_context_budget [of "new_attention 527" foo_store "[]" "Some ''foo''"]
    by (simp add: cm res' fa mt estimate_tokens_def len_def)
  then obtain older sel where h:
    "fst (fst (build_context (new_attention 527) foo_store [] (Some ''foo''))) =
       \<lparr>role = ''system'',
        msg_content = Some ''\<newline>\<newline>### CORE MEMORY ###\<newline>\<newline>\<newline>### RELEVANT MEMORIES ###\<newline>- foo''\<rparr> # sel"
    "recall foo_store = older @ sel"
    "sel \<noteq> [] \<longrightarrow> tokens_of sel \<le> 19"
    "older \<noteq> [] \<longrightarrow> tokens_of sel + msg_tokens (last older) > 19"
    by blast
  from h(1) m have s: "sel = [?B, ?C]" by simp
  from h(2) s have o: "older = [?A]" by (simp add: foo_store_def)
  from h(3,4) s o e r m show ?thesis by simp
qed

text \<open>
  The claim as stated, with one third of the remaining budget taken exactly: a budget of
  525 leaves 25 tokens, the excerpt costs 8 tokens, which is less than 25 / 3, and the
  excerpt is not appended, because \<open>25 div 3 = 8\<close>.
\<close>

theorem build_context_third_counterexample:
  "estimate_tokens (format_archival
       (fst (search_archival (snd (get_core_memory foo_store)) ''foo'' 5 None))) = 8
   \<and> max_tokens (new_attention 525)
        - (estimate_tokens [] + estimate_tokens (fst (get_core_memory foo_store))) - 500 = 25
   \<and> real_of_int 8 < real_of_int 25 / 3
   \<and> fst (fst (build_context (new_attention 525) foo_store [] (Some ''foo''))) =
       [\<lparr>role = ''system'', msg_content = Some ''\<newline>\<newline>### CORE MEMORY ###\<newline>''\<rparr>,
        \<lparr>role = ''user'', msg_content = Some (replicate 20 (CHR ''a''))\<rparr>,
        \<lparr>role = ''assistant'', msg_content = Some (replicate 40 (CHR ''b''))\<rparr>,
        \<lparr>role = ''user'', msg_content = Some (replicate 36 (CHR ''c''))\<rparr>]"
proof -
  have res: "fst (search_archival (snd (get_core_memory foo_store)) ''foo'' 5 None)
      = [touch (block_of ''arch_0'' ''foo'' ARCHIVAL (1 / 2))]"
    by (simp add: attention_eval)
  have e: "estimate_tokens (format_archival
       (fst (search_archival (snd (get_core_memory foo_store)) ''foo'' 5 None))) = 8"
    unfolding res by (simp add: attention_eval)
  have r: "max_tokens (new_attention 525)
        - (estimate_tokens [] + estimate_tokens (fst (get_core_memory foo_store))) - 500 = 25"
    by (simp add: attention_eval)
  have m: "fst (fst (build_context (new_attention 525) foo_store [] (Some ''foo''))) =
       [\<lparr>role = ''system'', msg_content = Some ''\<newline>\<newline>### CORE MEMORY ###\<newline>''\<rparr>,
        \<lparr>role = ''user'', msg_content = Some (replicate 20 (CHR ''a''))\<rparr>,
        \<lparr>role = ''assistant'', msg_content = Some (replicate 40 (CHR ''b''))\<rparr>,
        \<lparr>role = ''user'', msg_content = Some (replicate 36 (CHR ''c''))\<rparr>]"
    by (simp add: attention_eval)
  have "real_of_int 8 < real_of_int 25 / 3" by simp
  with e r m show ?thesis by blast
qed

text \<open>
  Claim C7, as the code has it. \<open>build_context\<close> leaves the recall buffer, the keys and
  the order of both dictionaries and every field of every block except \<open>access_count\<close>
  as they were. It increments the access counter of every core block (through
  \<open>get_core_memory\<close>) and, when the focus query is not empty, of every archival block
  whose lowercased content contains a word of the query (through \<open>search_archival\<close>).
\<close>

theorem build_context_frame:
  "agent_id (snd (snd (build_context am mm sp fq))) = agent_id mm
   \<and> recall (snd (snd (build_context am mm sp fq))) = recall mm
   \<and> core (snd (snd (build_context am mm sp fq)))
       = map (\<lambda>(k, b). (k, b\<lparr>access_count := access_count b + 1\<rparr>)) (core mm)
   \<and> archival_index (snd (snd (build_context am mm sp fq)))
       = map (\<lambda>(k, b).
               (k, if (case fq of None \<Rightarrow> False
                       | Some q \<Rightarrow> q \<noteq> [] \<and> 0 < block_score (remdups (split (lower q))) b)
                   then b\<lparr>access_count := access_count b + 1\<rparr> else b))
             (archival_index mm)"
proof (cases fq)
  case None
  then show ?thesis
    by (simp add: build_context_store get_core_memory_core touch_def)
       (simp add: get_core_memory_def Let_def)
next
  case (Some q)
  show ?thesis
  proof (cases "q = []")
    case True
    with Some show ?thesis
      by (simp add: build_context_store get_core_memory_core touch_def)
         (simp add: get_core_memory_def Let_def)
  next
    case False
    have a: "agent_id (snd (search_archival (snd (get_core_memory mm)) q 5 None)) = agent_id mm"
      by (simp add: search_archival_def get_core_memory_def Let_def split_beta)
    from Some False a show ?thesis
      by (auto simp add: build_context_store get_core_memory_core search_archival_index touch_def)
  qed
qed

text \<open>Reading the store once: the counter of the core block and of the archival block that
  matches the query go from 0 to 1, the other archival block keeps its counter.\<close>

theorem build_context_frame_witness:
  "map (\<lambda>(k, b). access_count b) (core nexuss_store) = [0]
   \<and> map (\<lambda>(k, b). access_count b) (archival_index nexuss_store) = [0, 0]
   \<and> map (\<lambda>(k, b). access_count b)
        (core (snd (snd (build_context (new_attention 4096) nexuss_store ''Hi'' (Some ''foo'')))))
      = [1]
   \<and> map (\<lambda>(k, b). access_count b)
        (archival_index
          (snd (snd (build_context (new_attention 4096) nexuss_store ''Hi'' (Some ''foo'')))))
      = [1, 0]
   \<and> recall (snd (snd (build_context (new_attention 4096) nexuss_store ''Hi'' (Some ''foo''))))
      = recall nexuss_store"
  using build_context_frame [of "new_attention 4096" nexuss_store "''Hi''" "Some ''foo''"]
  by (simp add: nexuss_store_def block_of_def block_score_def split_def lower_def
        lower_char_def is_space_def len_def Let_def)

text \<open>
  The claim as stated: the store after \<open>build_context\<close> is not the store before it; the
  access counter of the core block has changed.
\<close>

theorem build_context_frame_counterexample:
  "snd (snd (build_context (new_attention 4096) nexuss_store ''Hi'' None)) \<noteq> nexuss_store
   \<and> access_count (snd (hd (core nexuss_store))) = 0
   \<and> access_count
        (snd (hd (core (snd (snd (build_context (new_attention 4096) nexuss_store ''Hi'' None))))))
      = 1"
proof -
  have c: "core (snd (snd (build_context (new_attention 4096) nexuss_store ''Hi'' None)))
      = [(''persona'', (block_of ''core_persona_h'' ''I am Nexuss.'' CORE 1)\<lparr>access_count := 1\<rparr>)]"
    by (simp add: build_context_store get_core_memory_core touch_def nexuss_store_def
          block_of_def)
  have 0: "access_count (snd (hd (core nexuss_store))) = 0"
    by (simp add: nexuss_store_def block_of_def)
  have 1: "access_count
        (snd (hd (core (snd (snd (build_context (new_attention 4096) nexuss_store ''Hi'' None))))))
      = 1"
    unfolding c by simp
  from 0 1 have "snd (snd (build_context (new_attention 4096) nexuss_store ''Hi'' None))
      \<noteq> nexuss_store"
    by auto
  with 0 1 show ?thesis by blast
qed

section \<open>Properties of the skill registry\<close>

lemma keyword_clash_None:
  "keyword_clash args = None \<longleftrightarrow> (\<forall>k \<in> set (map fst args). k \<noteq> ''self'' \<and> k \<noteq> ''name'')"
proof -
  have "keyword_clash args = None
        \<longleftrightarrow> find (\<lambda>(k, v). k = ''self'' \<or> k = ''name'') args = None"
    by (auto simp: keyword_clash_def split: option.splits)
  also have "\<dots> \<longleftrightarrow> (\<forall>k \<in> set (map fst args). k \<noteq> ''self'' \<and> k \<noteq> ''name'')"
    by (auto simp: find_None_iff)
  finally show ?thesis .
qed

text \<open>A keyword \<open>self\<close> or \<open>name\<close> makes the call raise, whatever the registry holds.\<close>

lemma execute_keyword_clash:
  "keyword_clash args = Some e \<Longrightarrow> execute reg name args start finish w = (Inl e, w)"
  by (simp add: execute_def)

text \<open>
  Claim C5. For every registry, name, handler and every argument set with no argument
  named \<open>self\<close> or \<open>name\<close>, \<open>SkillRegistry.execute\<close> returns a \<open>SkillResult\<close> and raises
  nothing. For a name that is not registered the result has \<open>success = False\<close> and an
  error text. When the handler raises, the result has \<open>success = False\<close>, no output and the
  text of the exception as its error. When the handler returns a result, that result is
  returned with the elapsed time.
\<close>

theorem execute_returns_result:
  assumes "\<forall>k \<in> set (map fst args). k \<noteq> ''self'' \<and> k \<noteq> ''name''"
  shows "(\<exists>r. fst (execute reg name args start finish w) = Inr r)
   \<and> (get_skill reg name = None \<longrightarrow>
        execute reg name args start finish w =
          (Inr \<lparr>success = False, output_val = None,
                error = Some (''Skill '' @ [CHR 0x27] @ name @ [CHR 0x27] @ '' not found''),
                execution_time = 0\<rparr>, w))
   \<and> (\<forall>skill e w'. get_skill reg name = Some skill \<and> skill_execute skill args w = (Inl e, w') \<longrightarrow>
        execute reg name args start finish w =
          (Inr \<lparr>success = False, output_val = None, error = Some (str_of e),
                execution_time = finish - start\<rparr>, w'))
   \<and> (\<forall>skill r w'. get_skill reg name = Some skill \<and> skill_execute skill args w = (Inr r, w') \<longrightarrow>
        execute reg name args start finish w = (Inr (r\<lparr>execution_time := finish - start\<rparr>), w'))"
proof -
  from assms have kc: "keyword_clash args = None" by (simp only: keyword_clash_None)
  show ?thesis
  proof (intro conjI allI impI)
    show "\<exists>r. fst (execute reg name args start finish w) = Inr r"
    proof (cases "get_skill reg name")
      case None
      with kc show ?thesis by (simp add: execute_def)
    next
      case (Some skill)
      obtain out w' where o: "skill_execute skill args w = (out, w')"
        by (cases "skill_execute skill args w")
      with Some kc show ?thesis by (cases out) (simp_all add: execute_def)
    qed
  qed (simp_all add: execute_def kc)
qed

text \<open>The handler of \<open>boom\<close> raises, and the name \<open>nope\<close> is not registered: called with
  the argument \<open>message\<close>, both return a failing result.\<close>

theorem execute_returns_result_witness:
  "get_skill example_registry ''boom'' = Some boom_skill
   \<and> skill_execute boom_skill [(''message'', ''hi'')] example_world
       = (Inl (PyException ''disk full''), example_world)
   \<and> execute example_registry ''boom'' [(''message'', ''hi'')] 10 12 example_world =
       (Inr \<lparr>success = False, output_val = None, error = Some ''disk full'',
             execution_time = 2\<rparr>, example_world)
   \<and> get_skill example_registry ''nope'' = None
   \<and> execute example_registry ''nope'' [(''message'', ''hi'')] 10 12 example_world =
       (Inr \<lparr>success = False, output_val = None,
             error = Some (''Skill '' @ [CHR 0x27] @ ''nope'' @ [CHR 0x27] @ '' not found''),
             execution_time = 0\<rparr>, example_world)"
proof -
  have g: "get_skill example_registry ''boom'' = Some boom_skill"
    by (simp add: example_registry_def register_def get_skill_def boom_skill_def
          send_message_skill_def)
  have n: "get_skill example_registry ''nope'' = None"
    by (simp add: example_registry_def register_def get_skill_def boom_skill_def
          send_message_skill_def)
  have s: "skill_execute boom_skill [(''message'', ''hi'')] example_world
             = (Inl (PyException ''disk full''), example_world)"
    by (simp add: boom_skill_def)
  have k: "\<forall>k \<in> set (map fst [(''message'', ''hi'')]). k \<noteq> ''self'' \<and> k \<noteq> ''name''"
    by simp
  from execute_returns_result [OF k, of example_registry "''boom''" 10 12 example_world] g s
  have 1: "execute example_registry ''boom'' [(''message'', ''hi'')] 10 12 example_world =
       (Inr \<lparr>success = False, output_val = None, error = Some ''disk full'',
             execution_time = 2\<rparr>, example_world)"
    by simp
  from execute_returns_result [OF k, of example_registry "''nope''" 10 12 example_world] n
  have 2: "execute example_registry ''nope'' [(''message'', ''hi'')] 10 12 example_world =
       (Inr \<lparr>success = False, output_val = None,
             error = Some (''Skill '' @ [CHR 0x27] @ ''nope'' @ [CHR 0x27] @ '' not found''),
             execution_time = 0\<rparr>, example_world)"
    by simp
  from g s 1 n 2 show ?thesis by blast
qed

text \<open>The claim as stated fails for an argument set that holds the key \<open>name\<close>: the tool
  call \<open>nope(name=x)\<close>, for a name that is not registered, and the tool call \<open>boom(name=x)\<close>
  both make \<open>execute\<close> raise \<open>TypeError\<close> instead of returning a failing result.\<close>

theorem execute_keyword_counterexample:
  "get_skill example_registry ''nope'' = None
   \<and> execute example_registry ''nope'' [(''name'', ''x'')] 10 12 example_world =
       (Inl (PyException (''SkillRegistry.execute() got multiple values for argument ''
                          @ [CHR 0x27] @ ''name'' @ [CHR 0x27])), example_world)
   \<and> get_skill example_registry ''boom'' = Some boom_skill
   \<and> execute example_registry ''boom'' [(''name'', ''x'')] 10 12 example_world =
       (Inl (PyException (''SkillRegistry.execute() got multiple values for argument ''
                          @ [CHR 0x27] @ ''name'' @ [CHR 0x27])), example_world)"
  by (simp add: execute_def keyword_clash_def example_registry_def register_def get_skill_def
        boom_skill_def send_message_skill_def)

section \<open>Properties of the heartbeat protocol\<close>

lemma with_world_frame [simp]:
  "beat_count (with_world w p) = beat_count p"
  "state (with_world w p) = state p"
  "missed_beats (with_world w p) = missed_beats p"
  "heartbeat_history (with_world w p) = heartbeat_history p"
  "stop_event (with_world w p) = stop_event p"
  "is_local (with_world w p) = is_local p"
  "user_input_queue (with_world w p) = user_input_queue p"
  by (simp_all add: with_world_def)

lemma run_tool_calls_frame:
  "beat_count (snd (run_tool_calls reg env tcs p)) = beat_count p
   \<and> state (snd (run_tool_calls reg env tcs p)) = state p
   \<and> missed_beats (snd (run_tool_calls reg env tcs p)) = missed_beats p
   \<and> heartbeat_history (snd (run_tool_calls reg env tcs p)) = heartbeat_history p
   \<and> stop_event (snd (run_tool_calls reg env tcs p)) = stop_event p
   \<and> is_local (snd (run_tool_calls reg env tcs p)) = is_local p"
proof (induction tcs arbitrary: p)
  case Nil
  then show ?case by simp
next
  case (Cons tc tcs)
  let ?args = "case function_arguments tc of None \<Rightarrow> [] | Some a \<Rightarrow> a"
  obtain out w where ex:
    "execute reg (function_name tc) ?args (env_start env) (env_finish env) (world_of p) = (out, w)"
    by (cases "execute reg (function_name tc) ?args (env_start env) (env_finish env) (world_of p)")
  show ?case
  proof (cases out)
    case (Inl e)
    with ex show ?thesis by (simp add: Let_def)
  next
    case (Inr r)
    with ex have "run_tool_calls reg env (tc # tcs) p = run_tool_calls reg env tcs (with_world w p)"
      by (simp add: Let_def)
    with Cons.IH [of "with_world w p"] show ?thesis by simp
  qed
qed

lemma process_response_frame:
  "beat_count (snd (process_response reg env response p)) = beat_count p
   \<and> missed_beats (snd (process_response reg env response p)) = missed_beats p
   \<and> heartbeat_history (snd (process_response reg env response p)) = heartbeat_history p
   \<and> stop_event (snd (process_response reg env response p)) = stop_event p
   \<and> is_local (snd (process_response reg env response p)) = is_local p"
proof (cases "response_message response")
  case None
  then show ?thesis by (simp add: process_response_def)
next
  case (Some msg)
  define calls where "calls = (case tool_calls msg of None \<Rightarrow> [] | Some tcs \<Rightarrow> tcs)"
  define body where "body = (case response_content msg of None \<Rightarrow> [] | Some c \<Rightarrow> c)"
  define p1 where "p1 = p\<lparr>memory := add_to_recall (memory p)
                                  \<lparr>role = ''assistant'', msg_content = Some body\<rparr>\<rparr>"
  show ?thesis
  proof (cases "calls = []")
    case True
    with Some show ?thesis
      by (simp add: process_response_def Let_def calls_def [symmetric])
  next
    case False
    obtain raised p2 where r: "run_tool_calls reg env calls (p1\<lparr>state := EXECUTING\<rparr>) = (raised, p2)"
      by (cases "run_tool_calls reg env calls (p1\<lparr>state := EXECUTING\<rparr>)")
    from run_tool_calls_frame [of reg env calls "p1\<lparr>state := EXECUTING\<rparr>"] r
    have f: "beat_count p2 = beat_count p" "missed_beats p2 = missed_beats p"
      "heartbeat_history p2 = heartbeat_history p" "stop_event p2 = stop_event p"
      "is_local p2 = is_local p"
      by (simp_all add: p1_def)
    from Some False r f show ?thesis
      by (cases raised)
         (simp_all add: process_response_def Let_def calls_def [symmetric] body_def [symmetric]
            p1_def [symmetric])
  qed
qed

lemma last_deque_append: "0 < n \<Longrightarrow> last (deque_append n d x) = x"
  by (cases d) (auto simp: deque_append_def Let_def)

lemma think_and_record_end:
  "state (think_and_record reg env trig ums messages p) = IDLE
   \<and> missed_beats (think_and_record reg env trig ums messages p) = 0
   \<and> beat_count (think_and_record reg env trig ums messages p) = beat_count p
   \<and> stop_event (think_and_record reg env trig ums messages p) = stop_event p
   \<and> is_local (think_and_record reg env trig ums messages p) = is_local p
   \<and> (\<exists>event. heartbeat_history (think_and_record reg env trig ums messages p)
                 = deque_append 100 (heartbeat_history p) event
             \<and> beat_id event = beat_count p \<and> pending_tasks event = len ums)"
proof (cases "env_llm env messages")
  case (Inl e)
  then show ?thesis by (auto simp add: think_and_record_def Let_def)
next
  case (Inr response)
  obtain raised p' where pr:
    "process_response reg env response (p\<lparr>state := THINKING\<rparr>) = (raised, p')"
    by (cases "process_response reg env response (p\<lparr>state := THINKING\<rparr>)")
  from process_response_frame [of reg env response "p\<lparr>state := THINKING\<rparr>"] pr
  have f: "beat_count p' = beat_count p" "missed_beats p' = missed_beats p"
    "heartbeat_history p' = heartbeat_history p" "stop_event p' = stop_event p"
    "is_local p' = is_local p"
    by simp_all
  from Inr pr f show ?thesis
    by (cases raised) (auto simp add: think_and_record_def Let_def)
qed


lemma prepare_cycle_frame:
  "beat_count (snd (snd (prepare_cycle env p))) = beat_count p + 1
   \<and> state (snd (snd (prepare_cycle env p))) = HEARTBEAT
   \<and> output_queue (snd (snd (prepare_cycle env p))) = output_queue p
   \<and> heartbeat_history (snd (snd (prepare_cycle env p))) = heartbeat_history p
   \<and> missed_beats (snd (snd (prepare_cycle env p))) = missed_beats p
   \<and> stop_event (snd (snd (prepare_cycle env p))) = stop_event p
   \<and> heartbeat_requested (snd (snd (prepare_cycle env p))) = heartbeat_requested p
   \<and> is_local (snd (snd (prepare_cycle env p))) = is_local p
   \<and> user_input_queue (snd (snd (prepare_cycle env p))) = []
   \<and> fst (snd (prepare_cycle env p)) = user_input_queue p"
  by (cases "is_local p"; cases "env_status_block env"; cases "user_input_queue p = []")
     (simp_all add: prepare_cycle_def Let_def split_beta)

lemma prepare_cycle_noop:
  "fst (prepare_cycle env p) = Inr None \<longleftrightarrow>
     is_local p \<and> user_input_queue p = [] \<and> (\<exists>sb. env_status_block env = Inr sb)"
  by (cases "is_local p"; cases "env_status_block env"; cases "user_input_queue p = []")
     (simp_all add: prepare_cycle_def Let_def split_beta)

lemma prepare_cycle_calls:
  "(\<exists>messages. fst (prepare_cycle env p) = Inr (Some messages)) \<longleftrightarrow>
     (user_input_queue p \<noteq> [] \<or> \<not> is_local p)
     \<and> (is_local p \<longrightarrow> (\<exists>sb. env_status_block env = Inr sb))"
  by (cases "is_local p"; cases "env_status_block env"; cases "user_input_queue p = []")
     (simp_all add: prepare_cycle_def Let_def split_beta)






text \<open>
  Claim C8, as the code has it. A cycle that goes on to the model call, that is every
  cycle except the idle cycle of a local model and a cycle that the status block leaves
  with an exception, ends normally with a new event as the last entry of the history, the
  missed-beat counter at zero and the state \<open>IDLE\<close>. The idle cycle of a local model (no
  input queued) returns before the model call, and the history is as it was.
\<close>

theorem execute_heartbeat_records:
  "((user_input_queue p \<noteq> [] \<or> \<not> is_local p)
      \<and> (is_local p \<longrightarrow> (\<exists>sb. env_status_block env = Inr sb)) \<longrightarrow>
        fst (execute_heartbeat reg env trig p) = None
      \<and> state (snd (execute_heartbeat reg env trig p)) = IDLE
      \<and> missed_beats (snd (execute_heartbeat reg env trig p)) = 0
      \<and> (\<exists>event. heartbeat_history (snd (execute_heartbeat reg env trig p))
                    = deque_append 100 (heartbeat_history p) event
                \<and> last (heartbeat_history (snd (execute_heartbeat reg env trig p))) = event
                \<and> beat_id event = beat_count p + 1
                \<and> pending_tasks event = len (user_input_queue p)))
   \<and> (is_local p \<and> user_input_queue p = [] \<and> (\<exists>sb. env_status_block env = Inr sb) \<longrightarrow>
        fst (execute_heartbeat reg env trig p) = None
      \<and> heartbeat_history (snd (execute_heartbeat reg env trig p)) = heartbeat_history p)"
proof (intro conjI impI)
  assume "is_local p \<and> user_input_queue p = [] \<and> (\<exists>sb. env_status_block env = Inr sb)"
  then have n: "fst (prepare_cycle env p) = Inr None" by (simp add: prepare_cycle_noop)
  then obtain ums p' where pc: "prepare_cycle env p = (Inr None, ums, p')"
    by (cases "prepare_cycle env p") auto
  from prepare_cycle_frame [of env p] pc have h: "heartbeat_history p' = heartbeat_history p"
    by simp
  from pc show "fst (execute_heartbeat reg env trig p) = None"
    by (simp add: execute_heartbeat_def)
  from pc h show "heartbeat_history (snd (execute_heartbeat reg env trig p)) = heartbeat_history p"
    by (simp add: execute_heartbeat_def)
next
  assume "(user_input_queue p \<noteq> [] \<or> \<not> is_local p)
      \<and> (is_local p \<longrightarrow> (\<exists>sb. env_status_block env = Inr sb))"
  then have "\<exists>messages. fst (prepare_cycle env p) = Inr (Some messages)"
    by (simp add: prepare_cycle_calls)
  then obtain messages ums p' where pc: "prepare_cycle env p = (Inr (Some messages), ums, p')"
    by (cases "prepare_cycle env p") auto
  from prepare_cycle_frame [of env p] pc
  have f: "heartbeat_history p' = heartbeat_history p" "beat_count p' = beat_count p + 1"
    "ums = user_input_queue p"
    by simp_all
  have c: "execute_heartbeat reg env trig p = (None, think_and_record reg env trig ums messages p')"
    using pc by (simp add: execute_heartbeat_def)
  note d = think_and_record_end [of reg env trig ums messages p']
  show "fst (execute_heartbeat reg env trig p) = None" by (simp add: c)
  show "state (snd (execute_heartbeat reg env trig p)) = IDLE" using d by (simp add: c)
  show "missed_beats (snd (execute_heartbeat reg env trig p)) = 0" using d by (simp add: c)
  from d obtain event where ev:
    "heartbeat_history (think_and_record reg env trig ums messages p')
       = deque_append 100 (heartbeat_history p') event"
    "beat_id event = beat_count p'" "pending_tasks event = len ums"
    by blast
  have "last (deque_append 100 (heartbeat_history p') event) = event"
    by (rule last_deque_append) simp
  with ev f show "\<exists>event. heartbeat_history (snd (execute_heartbeat reg env trig p))
                    = deque_append 100 (heartbeat_history p) event
                \<and> last (heartbeat_history (snd (execute_heartbeat reg env trig p))) = event
                \<and> beat_id event = beat_count p + 1
                \<and> pending_tasks event = len (user_input_queue p)"
    by (auto simp: c)
qed

text \<open>A local model with the input \<open>hello\<close> queued: the cycle ends in \<open>IDLE\<close>, resets the
  counter, which was 1, and records its event, the first of the history.\<close>

theorem execute_heartbeat_records_witness:
  "user_input_queue (send_user_input (example_protocol True) ''hello'') = [''hello'']
   \<and> env_status_block failing_env = Inr ''status''
   \<and> missed_beats (send_user_input (example_protocol True) ''hello'') = 1
   \<and> state (snd (execute_heartbeat example_registry failing_env True
        (send_user_input (example_protocol True) ''hello''))) = IDLE
   \<and> missed_beats (snd (execute_heartbeat example_registry failing_env True
        (send_user_input (example_protocol True) ''hello''))) = 0
   \<and> length (heartbeat_history (snd (execute_heartbeat example_registry failing_env True
        (send_user_input (example_protocol True) ''hello'')))) = 1
   \<and> beat_id (last (heartbeat_history (snd (execute_heartbeat example_registry failing_env True
        (send_user_input (example_protocol True) ''hello''))))) = 1"
proof -
  let ?p = "send_user_input (example_protocol True) ''hello''"
  have u: "user_input_queue ?p = [''hello'']" "missed_beats ?p = 1" "heartbeat_history ?p = []"
    "beat_count ?p = 0"
    by (simp_all add: send_user_input_def example_protocol_def)
  have s: "env_status_block failing_env = Inr ''status''" by (simp add: failing_env_def)
  from execute_heartbeat_records [of ?p failing_env example_registry True] u s
  obtain event where
    "state (snd (execute_heartbeat example_registry failing_env True ?p)) = IDLE"
    "missed_beats (snd (execute_heartbeat example_registry failing_env True ?p)) = 0"
    "heartbeat_history (snd (execute_heartbeat example_registry failing_env True ?p))
       = deque_append 100 [] event"
    "last (heartbeat_history (snd (execute_heartbeat example_registry failing_env True ?p))) = event"
    "beat_id event = 1"
    by auto
  with u s show ?thesis by (simp add: deque_append_def)
qed

text \<open>
  The claim as stated, on the idle cycle of a local model: the cycle ends normally, and
  the history is still empty, the state is \<open>HEARTBEAT\<close> and the counter is still 1.
\<close>

theorem execute_heartbeat_noop_counterexample:
  "is_local (example_protocol True)
   \<and> user_input_queue (example_protocol True) = []
   \<and> fst (execute_heartbeat example_registry failing_env False (example_protocol True)) = None
   \<and> heartbeat_history
        (snd (execute_heartbeat example_registry failing_env False (example_protocol True))) = []
   \<and> state (snd (execute_heartbeat example_registry failing_env False (example_protocol True)))
        = HEARTBEAT
   \<and> missed_beats
        (snd (execute_heartbeat example_registry failing_env False (example_protocol True))) = 1"
proof -
  let ?p = "example_protocol True"
  have l: "is_local ?p" "user_input_queue ?p = []" "heartbeat_history ?p = []" "missed_beats ?p = 1"
    by (simp_all add: example_protocol_def)
  have s: "env_status_block failing_env = Inr ''status''" by (simp add: failing_env_def)
  from l s have "fst (prepare_cycle failing_env ?p) = Inr None" by (simp add: prepare_cycle_noop)
  then obtain ums p' where pc: "prepare_cycle failing_env ?p = (Inr None, ums, p')"
    by (cases "prepare_cycle failing_env ?p") auto
  from prepare_cycle_frame [of failing_env ?p] pc l
  have f: "heartbeat_history p' = []" "state p' = HEARTBEAT" "missed_beats p' = 1"
    by simp_all
  from pc have "execute_heartbeat example_registry failing_env False ?p = (None, p')"
    by (simp add: execute_heartbeat_def)
  with l f show ?thesis by simp
qed

text \<open>
  Claim C9, as the code has it. \<open>stop()\<close> sets the stop flag, leaves the wake event as it
  is, blocks for at most 5 seconds in the join and sets the state to \<open>SHUTDOWN\<close>. A worker
  that waits on the wake event with the flag not set, and that no other thread wakes, is
  therefore not woken by \<open>stop()\<close>: its wait returns when the whole interval has passed.
\<close>

theorem stop_sets_flag_only:
  "stop_event (fst (stop worker_ends p))
   \<and> heartbeat_requested (fst (stop worker_ends p)) = heartbeat_requested p
   \<and> state (fst (stop worker_ends p)) = SHUTDOWN
   \<and> snd (stop worker_ends p) \<le> 5
   \<and> (\<not> heartbeat_requested p \<longrightarrow>
        event_wait (heartbeat_requested (fst (stop worker_ends p))) (interval p) None
          = (False, interval p))"
  by (cases "heartbeat_thread p"; cases worker_ends)
     (simp_all add: stop_def join_time_def event_wait_def Let_def)

text \<open>A worker that ends after its wait of 60 seconds: \<open>stop()\<close> returns after the 5
  seconds of the join, with the stop flag set and the wake event not set.\<close>

theorem stop_sets_flag_only_witness:
  "\<not> heartbeat_requested (example_protocol False)
   \<and> stop_event (fst (stop (Some 60) (example_protocol False)))
   \<and> snd (stop (Some 60) (example_protocol False)) = 5
   \<and> event_wait (heartbeat_requested (fst (stop (Some 60) (example_protocol False))))
        (interval (example_protocol False)) None = (False, 60)"
proof -
  have n: "\<not> heartbeat_requested (example_protocol False)"
    "interval (example_protocol False) = 60"
    by (simp_all add: example_protocol_def)
  have b: "snd (stop (Some 60) (example_protocol False)) = 5"
    by (simp add: stop_def join_time_def example_protocol_def Let_def)
  from stop_sets_flag_only [of "Some 60" "example_protocol False"] n b
  show ?thesis by (simp add: event_wait_def)
qed

text \<open>
  The claim as stated: after \<open>stop()\<close> the wake event is still not set, and the wait of
  the worker lasts the full interval of 60 seconds, longer than the join.
\<close>

theorem stop_no_wake_counterexample:
  "\<not> heartbeat_requested (fst (stop (Some 60) (example_protocol False)))
   \<and> snd (event_wait (heartbeat_requested (fst (stop (Some 60) (example_protocol False))))
        (interval (example_protocol False)) None) = 60
   \<and> snd (stop (Some 60) (example_protocol False)) = 5"
  by (simp add: stop_def join_time_def event_wait_def example_protocol_def Let_def)

end
